theory Spec2Isabelle
  imports Main "HOL-Library.Multiset" "HOL-Library.AList"
begin

section \<open>Python values\<close>

text \<open>
  The service and the exporters work on untyped data (\<^verbatim>\<open>List[Dict[str, Any]]\<close>) that the
  JSON loader hands them. A value is what \<^verbatim>\<open>json.load\<close> can produce: \<^verbatim>\<open>None\<close>, a bool,
  an int, a str, a list, or a dict whose keys are strings (in insertion order). JSON numbers
  with a fraction or an exponent (Python floats) are not part of this value type.
  A string is a list of characters with codes 0 to 255.
\<close>

datatype pyval =
    PNone
  | PBool bool
  | PInt int
  | PStr string
  | PList "pyval list"
  | PDict "(string \<times> pyval) list"

text \<open>\<^verbatim>\<open>type(v).__name__\<close>, as it appears in the interpreter's messages.\<close>

fun type_name :: "pyval \<Rightarrow> string" where
  "type_name PNone = ''NoneType''"
| "type_name (PBool _) = ''bool''"
| "type_name (PInt _) = ''int''"
| "type_name (PStr _) = ''str''"
| "type_name (PList _) = ''list''"
| "type_name (PDict _) = ''dict''"

subsection \<open>Exceptions\<close>

text \<open>
  The classes of \<^verbatim>\<open>exceptions/custom_exceptions.py\<close> with the attributes their constructors
  store, and the exceptions of the interpreter and its library that the modelled code can run
  into. \<^verbatim>\<open>OSError\<close> stands for whatever the file system raises. The texts of the
  interpreter's own messages are those of CPython 3.8 to 3.13.
\<close>

datatype exn =
    ValidationError string
  | DataLoadError string "string option"
  | DataExportError string "string option"
  | UnsupportedFormatError string "string list"
  | TypeError string
  | AttributeError string
  | ExpatError string
  | OSError string

text \<open>A name between single quotes, as the messages show it.\<close>

definition squote :: "string \<Rightarrow> string" where
  "squote s = [CHR 0x27] @ s @ [CHR 0x27]"

text \<open>\<^verbatim>\<open>', '.join(xs)\<close>\<close>

fun join_comma :: "string list \<Rightarrow> string" where
  "join_comma [] = []"
| "join_comma [x] = x"
| "join_comma (x # y # ys) = x @ '', '' @ join_comma (y # ys)"

text \<open>\<^verbatim>\<open>str(e)\<close>: the message handed to \<^verbatim>\<open>Exception.__init__\<close>.\<close>

fun str_exn :: "exn \<Rightarrow> string" where
  "str_exn (ValidationError msg) = msg"
| "str_exn (DataLoadError msg file_path) = msg"
| "str_exn (DataExportError msg output_path) = msg"
| "str_exn (UnsupportedFormatError format_name supported_formats) =
     ''Unsupported format '' @ squote format_name @ ''. Supported formats: '' @
     join_comma supported_formats"
| "str_exn (TypeError msg) = msg"
| "str_exn (AttributeError msg) = msg"
| "str_exn (ExpatError msg) = msg"
| "str_exn (OSError msg) = msg"

subsection \<open>Built-in operations\<close>

text \<open>The \<^verbatim>\<open>AttributeError\<close> of a method call on a value that has no such method.\<close>

definition no_attribute :: "pyval \<Rightarrow> string \<Rightarrow> exn" where
  "no_attribute v meth =
     AttributeError (squote (type_name v) @ '' object has no attribute '' @ squote meth)"

text \<open>\<^verbatim>\<open>str(i)\<close> for an index of \<^verbatim>\<open>enumerate\<close>.\<close>

definition digit_char :: "nat \<Rightarrow> char" where
  "digit_char d =
     (if d = 0 then CHR ''0'' else if d = 1 then CHR ''1'' else if d = 2 then CHR ''2''
      else if d = 3 then CHR ''3'' else if d = 4 then CHR ''4'' else if d = 5 then CHR ''5''
      else if d = 6 then CHR ''6'' else if d = 7 then CHR ''7'' else if d = 8 then CHR ''8''
      else CHR ''9'')"

function str_nat :: "nat \<Rightarrow> string" where
  "str_nat n = (if n < 10 then [digit_char n] else str_nat (n div 10) @ [digit_char (n mod 10)])"
  by pat_completeness auto
termination
  by (relation "measure (\<lambda>n. n)") auto

declare str_nat.simps [simp del]

text \<open>\<^verbatim>\<open>d.get(key, default)\<close> and \<^verbatim>\<open>key in d\<close> on a dict.\<close>

definition dict_get :: "(string \<times> pyval) list \<Rightarrow> string \<Rightarrow> pyval \<Rightarrow> pyval" where
  "dict_get d k dflt = (case map_of d k of None \<Rightarrow> dflt | Some v \<Rightarrow> v)"

definition dict_contains :: "(string \<times> pyval) list \<Rightarrow> string \<Rightarrow> bool" where
  "dict_contains d k = (map_of d k \<noteq> None)"

text \<open>
  The method call \<^verbatim>\<open>v.get(key, default)\<close> on an arbitrary value: only a dict has the
  method.
\<close>

fun py_get :: "pyval \<Rightarrow> string \<Rightarrow> pyval \<Rightarrow> exn + pyval" where
  "py_get (PDict d) k dflt = Inr (dict_get d k dflt)"
| "py_get v k dflt = Inl (no_attribute v ''get'')"

text \<open>\<^verbatim>\<open>len(v)\<close>\<close>

fun py_len :: "pyval \<Rightarrow> exn + nat" where
  "py_len (PStr s) = Inr (length s)"
| "py_len (PList xs) = Inr (length xs)"
| "py_len (PDict d) = Inr (length d)"
| "py_len v = Inl (TypeError (''object of type '' @ squote (type_name v) @ '' has no len()''))"

text \<open>
  \<^verbatim>\<open>for x in v\<close>: a list yields its elements, a str its characters, a dict its keys;
  nothing else can be iterated.
\<close>

fun py_iter :: "pyval \<Rightarrow> exn + pyval list" where
  "py_iter (PList xs) = Inr xs"
| "py_iter (PStr s) = Inr (map (\<lambda>c. PStr [c]) s)"
| "py_iter (PDict d) = Inr (map (\<lambda>kv. PStr (fst kv)) d)"
| "py_iter v = Inl (TypeError (squote (type_name v) @ '' object is not iterable''))"

text \<open>
  Keys of a \<^verbatim>\<open>dict\<close> and members of a \<^verbatim>\<open>set\<close> are compared by hash and \<^verbatim>\<open>==\<close>.
  On the values above, \<^verbatim>\<open>True == 1\<close> and \<^verbatim>\<open>False == 0\<close> (with equal hashes), strings are
  equal to strings only, \<^verbatim>\<open>None\<close> to itself only, and lists and dicts cannot be hashed.
  \<open>hash_key\<close> maps a value to its class under this equality, or to the \<^verbatim>\<open>TypeError\<close>
  that hashing raises.
\<close>

datatype hkey = HNone | HNum int | HStr string

fun hash_key :: "pyval \<Rightarrow> exn + hkey" where
  "hash_key PNone = Inr HNone"
| "hash_key (PBool b) = Inr (HNum (if b then 1 else 0))"
| "hash_key (PInt i) = Inr (HNum i)"
| "hash_key (PStr s) = Inr (HStr s)"
| "hash_key v = Inl (TypeError (''unhashable type: '' @ squote (type_name v)))"

text \<open>\<^verbatim>\<open>len(set(xs))\<close>: every element is hashed, in order; equal elements count once.\<close>

fun hash_all :: "pyval list \<Rightarrow> exn + hkey list" where
  "hash_all [] = Inr []"
| "hash_all (x # xs) =
     (case hash_key x of
        Inl e \<Rightarrow> Inl e
      | Inr k \<Rightarrow> (case hash_all xs of Inl e \<Rightarrow> Inl e | Inr ks \<Rightarrow> Inr (k # ks)))"

definition len_set :: "pyval list \<Rightarrow> exn + nat" where
  "len_set xs = (case hash_all xs of Inl e \<Rightarrow> Inl e | Inr ks \<Rightarrow> Inr (length (remdups ks)))"

section \<open>Validation (utils/validation.py)\<close>

fun validate_students_loop :: "nat \<Rightarrow> pyval list \<Rightarrow> exn + unit" where
  "validate_students_loop i [] = Inr ()"
| "validate_students_loop i (PDict student # rest) =
     (if \<not> dict_contains student ''id'' then
        Inl (ValidationError (''Student at index '' @ str_nat i @ '' missing required 'id' field''))
      else if \<not> dict_contains student ''name'' then
        Inl (ValidationError (''Student at index '' @ str_nat i @ '' missing required 'name' field''))
      else validate_students_loop (Suc i) rest)"
| "validate_students_loop i (student # rest) =
     Inl (ValidationError (''Student at index '' @ str_nat i @ '' must be a dictionary''))"

fun validate_students_data :: "pyval \<Rightarrow> exn + unit" where
  "validate_students_data (PList students) = validate_students_loop 0 students"
| "validate_students_data students = Inl (ValidationError ''Students data must be a list'')"

fun validate_rooms_loop :: "nat \<Rightarrow> pyval list \<Rightarrow> exn + unit" where
  "validate_rooms_loop i [] = Inr ()"
| "validate_rooms_loop i (PDict room # rest) =
     (if \<not> dict_contains room ''id'' then
        Inl (ValidationError (''Room at index '' @ str_nat i @ '' missing required 'id' field''))
      else if \<not> dict_contains room ''name'' then
        Inl (ValidationError (''Room at index '' @ str_nat i @ '' missing required 'name' field''))
      else validate_rooms_loop (Suc i) rest)"
| "validate_rooms_loop i (room # rest) =
     Inl (ValidationError (''Room at index '' @ str_nat i @ '' must be a dictionary''))"

fun validate_rooms_data :: "pyval \<Rightarrow> exn + unit" where
  "validate_rooms_data (PList rooms) = validate_rooms_loop 0 rooms"
| "validate_rooms_data rooms = Inl (ValidationError ''Rooms data must be a list'')"

section \<open>The combined room (models/combined_room.py)\<close>

record CombinedRoom =
  cr_id :: pyval
  cr_name :: pyval
  cr_students :: "pyval list"

definition to_dict :: "CombinedRoom \<Rightarrow> pyval" where
  "to_dict r = PDict [(''id'', cr_id r), (''name'', cr_name r), (''students'', PList (cr_students r))]"

section \<open>The service (services/room_student_service.py)\<close>

text \<open>
  \<^verbatim>\<open>[x.get('id') for x in xs if x.get('id') is not None]\<close>: the comprehension of
  \<^verbatim>\<open>_validate_business_rules\<close>, for rooms and for students.
\<close>

fun non_null_ids :: "pyval list \<Rightarrow> exn + pyval list" where
  "non_null_ids [] = Inr []"
| "non_null_ids (x # xs) =
     (case py_get x ''id'' PNone of
        Inl e \<Rightarrow> Inl e
      | Inr i \<Rightarrow>
          (case non_null_ids xs of
             Inl e \<Rightarrow> Inl e
           | Inr is \<Rightarrow> Inr (if i \<noteq> PNone then i # is else is)))"

text \<open>
  \<^verbatim>\<open>_validate_business_rules\<close> runs the same check twice, on the rooms and then on the
  students: collect the non-null ids, compare their number with the size of their set, raise
  with the message of the collection when the two differ.
\<close>

definition check_duplicates :: "pyval \<Rightarrow> string \<Rightarrow> exn + unit" where
  "check_duplicates xs msg =
     (case py_iter xs of
        Inl e \<Rightarrow> Inl e
      | Inr items \<Rightarrow>
     (case non_null_ids items of
        Inl e \<Rightarrow> Inl e
      | Inr ids \<Rightarrow>
     (case len_set ids of
        Inl e \<Rightarrow> Inl e
      | Inr n \<Rightarrow> if length ids \<noteq> n then Inl (ValidationError msg) else Inr ())))"

definition validate_business_rules :: "pyval \<Rightarrow> pyval \<Rightarrow> exn + unit" where
  "validate_business_rules students rooms =
     (case check_duplicates rooms ''Duplicate room IDs found'' of
        Inl e \<Rightarrow> Inl e
      | Inr _ \<Rightarrow> check_duplicates students ''Duplicate student IDs found'')"

text \<open>
  \<^verbatim>\<open>validate_input_data\<close>: the body of its \<^verbatim>\<open>try\<close> block, then the handlers. A
  \<^verbatim>\<open>ValidationError\<close> raised in the block is re-raised as it is, any other exception
  becomes a \<^verbatim>\<open>ValidationError\<close>.
\<close>

definition validate_input_body :: "pyval \<Rightarrow> pyval \<Rightarrow> exn + unit" where
  "validate_input_body students rooms =
     (case validate_students_data students of
        Inl e \<Rightarrow> Inl e
      | Inr _ \<Rightarrow>
          (case validate_rooms_data rooms of
             Inl e \<Rightarrow> Inl e
           | Inr _ \<Rightarrow> validate_business_rules students rooms))"

fun reraise_validation :: "exn \<Rightarrow> exn" where
  "reraise_validation (ValidationError msg) = ValidationError msg"
| "reraise_validation e = ValidationError (''Input validation failed: '' @ str_exn e)"

definition validate_input_data :: "pyval \<Rightarrow> pyval \<Rightarrow> exn + bool" where
  "validate_input_data students rooms =
     (case validate_input_body students rooms of
        Inl e \<Rightarrow> Inl (reraise_validation e)
      | Inr _ \<Rightarrow> Inr True)"

fun build_room_lookup_loop ::
  "pyval list \<Rightarrow> (hkey \<rightharpoonup> pyval) \<Rightarrow> exn + (hkey \<rightharpoonup> pyval)" where
  "build_room_lookup_loop [] room_lookup = Inr room_lookup"
| "build_room_lookup_loop (room # rooms) room_lookup =
     (case py_get room ''id'' PNone of
        Inl e \<Rightarrow> Inl e
      | Inr room_id \<Rightarrow>
          if room_id \<noteq> PNone then
            (case hash_key room_id of
               Inl e \<Rightarrow> Inl e
             | Inr k \<Rightarrow> build_room_lookup_loop rooms (room_lookup(k \<mapsto> room)))
          else build_room_lookup_loop rooms room_lookup)"

definition build_room_lookup :: "pyval \<Rightarrow> exn + (hkey \<rightharpoonup> pyval)" where
  "build_room_lookup rooms =
     (case py_iter rooms of
        Inl e \<Rightarrow> Inl e
      | Inr rs \<Rightarrow> build_room_lookup_loop rs Map.empty)"

text \<open>
  The projection \<^verbatim>\<open>{'id': student.get('id'), 'name': student.get('name', 'Unknown')}\<close>.
\<close>

definition student_data :: "(string \<times> pyval) list \<Rightarrow> pyval" where
  "student_data student =
     PDict [(''id'', dict_get student ''id'' PNone),
            (''name'', dict_get student ''name'' (PStr ''Unknown''))]"

text \<open>\<^verbatim>\<open>students_by_room.get(room_id, [])\<close> on a key already hashed.\<close>

definition bucket :: "(hkey \<rightharpoonup> pyval list) \<Rightarrow> hkey \<Rightarrow> pyval list" where
  "bucket students_by_room k = (case students_by_room k of None \<Rightarrow> [] | Some l \<Rightarrow> l)"

fun group_students_loop ::
  "pyval list \<Rightarrow> (hkey \<rightharpoonup> pyval) \<Rightarrow> (hkey \<rightharpoonup> pyval list) \<Rightarrow> pyval list \<Rightarrow>
   exn + ((hkey \<rightharpoonup> pyval list) \<times> pyval list)" where
  "group_students_loop [] room_lookup students_by_room unassigned_students =
     Inr (students_by_room, unassigned_students)"
| "group_students_loop (PDict student # rest) room_lookup students_by_room unassigned_students =
     (let room_id = dict_get student ''room'' PNone in
      if room_id \<noteq> PNone then
        (case hash_key room_id of
           Inl e \<Rightarrow> Inl e
         | Inr k \<Rightarrow>
             if room_lookup k \<noteq> None then
               group_students_loop rest room_lookup
                 (students_by_room(k \<mapsto> bucket students_by_room k @ [student_data student]))
                 unassigned_students
             else
               group_students_loop rest room_lookup students_by_room
                 (unassigned_students @ [student_data student]))
      else
        group_students_loop rest room_lookup students_by_room
          (unassigned_students @ [student_data student]))"
| "group_students_loop (student # rest) room_lookup students_by_room unassigned_students =
     Inl (no_attribute student ''get'')"

definition group_students_by_room ::
  "pyval \<Rightarrow> (hkey \<rightharpoonup> pyval) \<Rightarrow> exn + ((hkey \<rightharpoonup> pyval list) \<times> pyval list)" where
  "group_students_by_room students room_lookup =
     (case py_iter students of
        Inl e \<Rightarrow> Inl e
      | Inr ss \<Rightarrow> group_students_loop ss room_lookup Map.empty [])"

fun build_combined_rooms_loop :: "pyval list \<Rightarrow> (hkey \<rightharpoonup> pyval list) \<Rightarrow> exn + pyval list" where
  "build_combined_rooms_loop [] students_by_room = Inr []"
| "build_combined_rooms_loop (PDict room # rooms) students_by_room =
     (let room_id = dict_get room ''id'' PNone in
      case hash_key room_id of
        Inl e \<Rightarrow> Inl e
      | Inr k \<Rightarrow>
          (case build_combined_rooms_loop rooms students_by_room of
             Inl e \<Rightarrow> Inl e
           | Inr result \<Rightarrow>
               Inr (to_dict \<lparr>cr_id = room_id,
                             cr_name = dict_get room ''name'' (PStr ''Unknown Room''),
                             cr_students = bucket students_by_room k\<rparr> # result)))"
| "build_combined_rooms_loop (room # rooms) students_by_room =
     Inl (no_attribute room ''get'')"

definition build_combined_rooms :: "pyval \<Rightarrow> (hkey \<rightharpoonup> pyval list) \<Rightarrow> exn + pyval list" where
  "build_combined_rooms rooms students_by_room =
     (case py_iter rooms of
        Inl e \<Rightarrow> Inl e
      | Inr rs \<Rightarrow> build_combined_rooms_loop rs students_by_room)"

definition combine_data :: "pyval \<Rightarrow> pyval \<Rightarrow> exn + pyval list" where
  "combine_data students rooms =
     (case py_len students of
        Inl e \<Rightarrow> Inl e
      | Inr _ \<Rightarrow>
     (case py_len rooms of
        Inl e \<Rightarrow> Inl e
      | Inr _ \<Rightarrow>
     (case validate_input_data students rooms of
        Inl e \<Rightarrow> Inl e
      | Inr _ \<Rightarrow>
     (case build_room_lookup rooms of
        Inl e \<Rightarrow> Inl e
      | Inr room_lookup \<Rightarrow>
     (case group_students_by_room students room_lookup of
        Inl e \<Rightarrow> Inl e
      | Inr (students_by_room, unassigned_students) \<Rightarrow>
     (case build_combined_rooms rooms students_by_room of
        Inl e \<Rightarrow> Inl e
      | Inr result \<Rightarrow>
          if unassigned_students \<noteq> [] then
            Inr (result @ [to_dict \<lparr>cr_id = PNone,
                                    cr_name = PStr ''Unassigned Students'',
                                    cr_students = unassigned_students\<rparr>])
          else Inr result))))))"

section \<open>The controller's processing stage (cli/cli_controller.py)\<close>

text \<open>
  \<^verbatim>\<open>_process_data\<close>: both handlers raise a new \<^verbatim>\<open>ValidationError\<close> built from the text
  of the one caught. Nothing between this method and \<^verbatim>\<open>run\<close> catches it, so what it raises
  is what \<^verbatim>\<open>_handle_error\<close> receives.
\<close>

definition process_data :: "pyval \<Rightarrow> pyval \<Rightarrow> exn + pyval list" where
  "process_data students_data rooms_data =
     (case combine_data students_data rooms_data of
        Inr combined_data \<Rightarrow> Inr combined_data
      | Inl (ValidationError msg) \<Rightarrow>
          Inl (ValidationError (''Data processing failed: '' @ str_exn (ValidationError msg)))
      | Inl e \<Rightarrow>
          Inl (ValidationError (''Unexpected error during data processing: '' @ str_exn e)))"

section \<open>The exporter registry (data/exporters/exporter_factory.py)\<close>

datatype exporter = JSONExporter | XMLExporter

text \<open>
  The class attribute \<^verbatim>\<open>_exporters\<close> is a dict from format names to exporter classes; it is
  passed explicitly, since \<^verbatim>\<open>register_exporter\<close> changes it.
\<close>

type_synonym registry = "(string \<times> exporter) list"

definition default_exporters :: registry where
  "default_exporters = [(''json'', JSONExporter), (''xml'', XMLExporter)]"

text \<open>\<^verbatim>\<open>str.lower\<close> on characters with codes up to 255.\<close>

definition lower_char :: "char \<Rightarrow> char" where
  "lower_char c =
     (let n = (of_char c :: nat) in
      if (65 \<le> n \<and> n \<le> 90) \<or> (192 \<le> n \<and> n \<le> 222 \<and> n \<noteq> 215) then char_of (n + 32) else c)"

definition lower :: "string \<Rightarrow> string" where
  "lower s = map lower_char s"

definition get_supported_formats :: "registry \<Rightarrow> string list" where
  "get_supported_formats exporters = map fst exporters"

definition create_exporter :: "registry \<Rightarrow> string \<Rightarrow> exn + exporter" where
  "create_exporter exporters format_name =
     (let format_lower = lower format_name in
      case map_of exporters format_lower of
        None \<Rightarrow> Inl (UnsupportedFormatError format_name (map fst exporters))
      | Some exporter_class \<Rightarrow> Inr exporter_class)"

definition register_exporter :: "registry \<Rightarrow> string \<Rightarrow> exporter \<Rightarrow> registry" where
  "register_exporter exporters format_name exporter_class =
     AList.update (lower format_name) exporter_class exporters"

section \<open>The exporters (data/exporters)\<close>

subsection \<open>Validation before export\<close>

text \<open>
  \<^verbatim>\<open>validate_output_data\<close> is the same method in both classes, up to the format named in
  the first message.
\<close>

fun format_label :: "exporter \<Rightarrow> string" where
  "format_label JSONExporter = ''JSON''"
| "format_label XMLExporter = ''XML''"

definition required_fields :: "string list" where
  "required_fields = [''id'', ''name'', ''students'']"

fun check_required_fields :: "nat \<Rightarrow> (string \<times> pyval) list \<Rightarrow> string list \<Rightarrow> exn + unit" where
  "check_required_fields i record [] = Inr ()"
| "check_required_fields i record (field # remaining) =
     (if \<not> dict_contains record field then
        Inl (DataExportError
               (''Record at index '' @ str_nat i @ '' missing required field: '' @ field) None)
      else check_required_fields i record remaining)"

fun validate_records_loop :: "nat \<Rightarrow> pyval list \<Rightarrow> exn + unit" where
  "validate_records_loop i [] = Inr ()"
| "validate_records_loop i (PDict record # rest) =
     (case check_required_fields i record required_fields of
        Inl e \<Rightarrow> Inl e
      | Inr _ \<Rightarrow> validate_records_loop (Suc i) rest)"
| "validate_records_loop i (record # rest) =
     Inl (DataExportError (''Record at index '' @ str_nat i @ '' must be a dictionary'') None)"

fun validate_output_data :: "exporter \<Rightarrow> pyval \<Rightarrow> exn + bool" where
  "validate_output_data ex (PList records) =
     (case validate_records_loop 0 records of Inl e \<Rightarrow> Inl e | Inr _ \<Rightarrow> Inr True)"
| "validate_output_data ex data =
     Inl (DataExportError (''Data must be a list for '' @ format_label ex @ '' export'') None)"

subsection \<open>Text of values\<close>

text \<open>
  \<^verbatim>\<open>str(v)\<close>. For a list or a dict it is \<^verbatim>\<open>repr(v)\<close>, which quotes and escapes the strings
  inside.
\<close>

definition str_int :: "int \<Rightarrow> string" where
  "str_int i = (if i < 0 then ''-'' @ str_nat (nat (- i)) else str_nat (nat i))"

definition hex_digit :: "nat \<Rightarrow> char" where
  "hex_digit d =
     (if d < 10 then digit_char d else if d = 10 then CHR ''a'' else if d = 11 then CHR ''b''
      else if d = 12 then CHR ''c'' else if d = 13 then CHR ''d'' else if d = 14 then CHR ''e''
      else CHR ''f'')"

definition printable :: "char \<Rightarrow> bool" where
  "printable c = (let n = (of_char c :: nat) in \<not> (n < 32 \<or> (127 \<le> n \<and> n \<le> 160) \<or> n = 173))"

definition repr_char :: "char \<Rightarrow> char \<Rightarrow> string" where
  "repr_char q c =
     (if c = q \<or> c = CHR 0x5C then [CHR 0x5C, c]
      else if c = CHR 0x09 then [CHR 0x5C, CHR ''t'']
      else if c = CHR 0x0A then [CHR 0x5C, CHR ''n'']
      else if c = CHR 0x0D then [CHR 0x5C, CHR ''r'']
      else if \<not> printable c then
        [CHR 0x5C, CHR ''x'', hex_digit (of_char c div 16), hex_digit (of_char c mod 16)]
      else [c])"

definition repr_str :: "string \<Rightarrow> string" where
  "repr_str s =
     (let q = (if CHR 0x27 \<in> set s \<and> CHR 0x22 \<notin> set s then CHR 0x22 else CHR 0x27)
      in [q] @ concat (map (repr_char q) s) @ [q])"

fun py_repr :: "pyval \<Rightarrow> string" where
  "py_repr PNone = ''None''"
| "py_repr (PBool b) = (if b then ''True'' else ''False'')"
| "py_repr (PInt i) = str_int i"
| "py_repr (PStr s) = repr_str s"
| "py_repr (PList xs) = ''['' @ join_comma (map py_repr xs) @ '']''"
| "py_repr (PDict d) =
     ''{'' @ join_comma (map (\<lambda>kv. repr_str (fst kv) @ '': '' @ py_repr (snd kv)) d) @ ''}''"

fun py_str :: "pyval \<Rightarrow> string" where
  "py_str (PStr s) = s"
| "py_str v = py_repr v"

subsection \<open>The XML document (data/exporters/xml\_exporter.py)\<close>

text \<open>\<^verbatim>\<open>content.replace(c, new)\<close> for a pattern of one character.\<close>

definition replace_char :: "char \<Rightarrow> string \<Rightarrow> string \<Rightarrow> string" where
  "replace_char c new s = concat (map (\<lambda>x. if x = c then new else [x]) s)"

definition escape_xml_content :: "string \<Rightarrow> string" where
  "escape_xml_content content =
     replace_char (CHR 0x27) ''&apos;''
       (replace_char (CHR 0x22) ''&quot;''
         (replace_char CHR ''>'' ''&gt;''
           (replace_char CHR ''<'' ''&lt;''
             (replace_char CHR ''&'' ''&amp;'' content))))"

text \<open>
  An \<^verbatim>\<open>xml.etree.ElementTree.Element\<close>: its tag, its text (empty when never set) and its
  children.
\<close>

datatype element = Element string string "element list"

fun student_element :: "pyval \<Rightarrow> exn + element" where
  "student_element student =
     (case py_get student ''id'' (PStr []) of
        Inl e \<Rightarrow> Inl e
      | Inr student_id \<Rightarrow>
     (case py_get student ''name'' (PStr []) of
        Inl e \<Rightarrow> Inl e
      | Inr student_name \<Rightarrow>
          Inr (Element ''student'' []
                 [Element ''id'' (py_str student_id) [],
                  Element ''name'' (escape_xml_content (py_str student_name)) []])))"

fun student_elements :: "pyval list \<Rightarrow> exn + element list" where
  "student_elements [] = Inr []"
| "student_elements (student # rest) =
     (case student_element student of
        Inl e \<Rightarrow> Inl e
      | Inr el \<Rightarrow> (case student_elements rest of Inl e \<Rightarrow> Inl e | Inr els \<Rightarrow> Inr (el # els)))"

definition room_element :: "pyval \<Rightarrow> exn + element" where
  "room_element room_data =
     (case py_get room_data ''id'' PNone of
        Inl e \<Rightarrow> Inl e
      | Inr room_id \<Rightarrow>
     (case py_get room_data ''name'' (PStr []) of
        Inl e \<Rightarrow> Inl e
      | Inr room_name \<Rightarrow>
     (case py_get room_data ''students'' (PList []) of
        Inl e \<Rightarrow> Inl e
      | Inr students \<Rightarrow>
     (case py_iter students of
        Inl e \<Rightarrow> Inl e
      | Inr items \<Rightarrow>
     (case student_elements items of
        Inl e \<Rightarrow> Inl e
      | Inr els \<Rightarrow>
          Inr (Element ''room'' []
                 [Element ''id'' (if room_id \<noteq> PNone then py_str room_id else []) [],
                  Element ''name'' (escape_xml_content (py_str room_name)) [],
                  Element ''students'' [] els]))))))"

fun room_elements :: "pyval list \<Rightarrow> exn + element list" where
  "room_elements [] = Inr []"
| "room_elements (room_data # rest) =
     (case room_element room_data of
        Inl e \<Rightarrow> Inl e
      | Inr el \<Rightarrow> (case room_elements rest of Inl e \<Rightarrow> Inl e | Inr els \<Rightarrow> Inr (el # els)))"

text \<open>
  The three calls into the standard library that end \<^verbatim>\<open>_generate_xml\<close>, modelled from
  the library's behaviour on the trees built above (fixed tags, no attributes).

  \<^verbatim>\<open>tostring\<close> writes the text of an element as character data, replacing \<open>&\<close>, \<open><\<close>
  and \<open>>\<close> by their entities. \<^verbatim>\<open>minidom.parseString\<close> reads that text back: the entities
  become the characters again, a carriage return (with a line feed after it, if any) becomes a
  line feed, and a character that XML 1.0 does not allow makes the parser raise (the position
  that the parser appends to its message is left out).
\<close>

definition xml_char :: "char \<Rightarrow> bool" where
  "xml_char c = (let n = (of_char c :: nat) in n = 9 \<or> n = 10 \<or> n = 13 \<or> 32 \<le> n)"

fun normalize_newlines :: "string \<Rightarrow> string" where
  "normalize_newlines [] = []"
| "normalize_newlines [c] = (if c = CHR 0x0D then [CHR 0x0A] else [c])"
| "normalize_newlines (c # d # s) =
     (if c = CHR 0x0D \<and> d = CHR 0x0A then CHR 0x0A # normalize_newlines s
      else if c = CHR 0x0D then CHR 0x0A # normalize_newlines (d # s)
      else c # normalize_newlines (d # s))"

fun reparse :: "element \<Rightarrow> exn + element"
  and reparse_all :: "element list \<Rightarrow> exn + element list" where
  "reparse (Element tag txt children) =
     (if \<not> list_all xml_char txt then Inl (ExpatError ''not well-formed (invalid token)'')
      else case reparse_all children of
             Inl e \<Rightarrow> Inl e
           | Inr cs \<Rightarrow> Inr (Element tag (normalize_newlines txt) cs))"
| "reparse_all [] = Inr []"
| "reparse_all (c # cs) =
     (case reparse c of
        Inl e \<Rightarrow> Inl e
      | Inr c' \<Rightarrow> (case reparse_all cs of Inl e \<Rightarrow> Inl e | Inr cs' \<Rightarrow> Inr (c' # cs')))"

text \<open>
  \<^verbatim>\<open>toprettyxml(indent='  ')\<close> writes character data with \<open>&\<close>, \<open><\<close> and \<open>>\<close> replaced
  by their entities again (interpreters before 3.13 also replace the double quote), an
  element without content as an empty tag, an element whose only content is text on one line,
  and the children of any other element on lines of their own, two spaces deeper.
\<close>

definition write_data :: "string \<Rightarrow> string" where
  "write_data s =
     replace_char CHR ''>'' ''&gt;'' (replace_char CHR ''<'' ''&lt;'' (replace_char CHR ''&'' ''&amp;'' s))"

definition newl :: string where
  "newl = [CHR 0x0A]"

fun writexml :: "string \<Rightarrow> element \<Rightarrow> string" where
  "writexml indent (Element tag txt children) =
     indent @ ''<'' @ tag @
     (if txt = [] \<and> children = [] then ''/>'' @ newl
      else if children = [] then ''>'' @ write_data txt @ ''</'' @ tag @ ''>'' @ newl
      else ''>'' @ newl @
           (if txt = [] then [] else write_data (indent @ ''  '' @ txt @ newl)) @
           concat (map (writexml (indent @ ''  '')) children) @
           indent @ ''</'' @ tag @ ''>'' @ newl)"

definition toprettyxml :: "element \<Rightarrow> string" where
  "toprettyxml root = ''<?xml version=\"1.0\" ?>'' @ newl @ writexml [] root"

definition generate_xml :: "pyval \<Rightarrow> exn + string" where
  "generate_xml data =
     (case py_iter data of
        Inl e \<Rightarrow> Inl e
      | Inr items \<Rightarrow>
     (case room_elements items of
        Inl e \<Rightarrow> Inl e
      | Inr rooms \<Rightarrow>
     (case reparse (Element ''rooms'' [] rooms) of
        Inl e \<Rightarrow> Inl e
      | Inr reparsed \<Rightarrow> Inr (toprettyxml reparsed))))"

subsection \<open>Writing the file\<close>

text \<open>
  The text that \<^verbatim>\<open>json.dump(data, file, ensure_ascii=False, indent=2)\<close> writes, modelled
  from the library: strings between double quotes with the quote, the backslash and the
  control characters escaped; a non-empty list or dict with one item per line, two spaces
  deeper at each level. On the values above the serialiser cannot fail.
\<close>

definition json_char :: "char \<Rightarrow> string" where
  "json_char c =
     (if c = CHR 0x22 then [CHR 0x5C, CHR 0x22]
      else if c = CHR 0x5C then [CHR 0x5C, CHR 0x5C]
      else if c = CHR 0x0A then [CHR 0x5C, CHR ''n'']
      else if c = CHR 0x0D then [CHR 0x5C, CHR ''r'']
      else if c = CHR 0x09 then [CHR 0x5C, CHR ''t'']
      else if c = CHR 0x08 then [CHR 0x5C, CHR ''b'']
      else if c = CHR 0x0C then [CHR 0x5C, CHR ''f'']
      else if (of_char c :: nat) < 32 then
        [CHR 0x5C, CHR ''u'', CHR ''0'', CHR ''0'',
         hex_digit (of_char c div 16), hex_digit (of_char c mod 16)]
      else [c])"

definition json_string :: "string \<Rightarrow> string" where
  "json_string s = [CHR 0x22] @ concat (map json_char s) @ [CHR 0x22]"

fun join_lines :: "string \<Rightarrow> string list \<Rightarrow> string" where
  "join_lines sep [] = []"
| "join_lines sep [x] = x"
| "join_lines sep (x # y # ys) = x @ sep @ join_lines sep (y # ys)"

fun json_dumps :: "nat \<Rightarrow> pyval \<Rightarrow> string" where
  "json_dumps level PNone = ''null''"
| "json_dumps level (PBool b) = (if b then ''true'' else ''false'')"
| "json_dumps level (PInt i) = str_int i"
| "json_dumps level (PStr s) = json_string s"
| "json_dumps level (PList xs) =
     (if xs = [] then ''[]''
      else ''['' @ newl @ replicate (2 * Suc level) CHR '' '' @
           join_lines ('','' @ newl @ replicate (2 * Suc level) CHR '' '')
             (map (json_dumps (Suc level)) xs) @
           newl @ replicate (2 * level) CHR '' '' @ '']'')"
| "json_dumps level (PDict d) =
     (if d = [] then ''{}''
      else ''{'' @ newl @ replicate (2 * Suc level) CHR '' '' @
           join_lines ('','' @ newl @ replicate (2 * Suc level) CHR '' '')
             (map (\<lambda>kv. json_string (fst kv) @ '': '' @ json_dumps (Suc level) (snd kv)) d) @
           newl @ replicate (2 * level) CHR '' '' @ ''}'')"

text \<open>
  The file system is a state of any type \<open>'fs\<close>, changed only by the two operations the
  exporters call: creating the parent directories of a path, and opening the path for
  writing and writing a text to it. Either may raise, and may have changed the state when it
  does.
\<close>

record 'fs env =
  mkdir_parents :: "string \<Rightarrow> 'fs \<Rightarrow> exn option \<times> 'fs"
  write_text :: "string \<Rightarrow> string \<Rightarrow> 'fs \<Rightarrow> exn option \<times> 'fs"

text \<open>The body of the \<^verbatim>\<open>if\<close> after a successful validation: make the directory, write.\<close>

definition write_output ::
  "'fs env \<Rightarrow> string \<Rightarrow> string \<Rightarrow> string \<Rightarrow> 'fs \<Rightarrow> (exn + unit) \<times> 'fs" where
  "write_output os label content output_path fs =
     (case mkdir_parents os output_path fs of
        (Some e, fs1) \<Rightarrow>
          (Inl (DataExportError (''Failed to export '' @ label @ '' data: '' @ str_exn e)
                  (Some output_path)), fs1)
      | (None, fs1) \<Rightarrow>
          (case write_text os output_path content fs1 of
             (Some e, fs2) \<Rightarrow>
               (Inl (DataExportError (''Failed to export '' @ label @ '' data: '' @ str_exn e)
                       (Some output_path)), fs2)
           | (None, fs2) \<Rightarrow> (Inr (), fs2)))"

fun export :: "'fs env \<Rightarrow> exporter \<Rightarrow> pyval \<Rightarrow> string \<Rightarrow> 'fs \<Rightarrow> (exn + unit) \<times> 'fs" where
  "export os JSONExporter data output_path fs =
     (case validate_output_data JSONExporter data of
        Inl e \<Rightarrow>
          (Inl (DataExportError (''Failed to export JSON data: '' @ str_exn e) (Some output_path)), fs)
      | Inr valid \<Rightarrow>
          if valid then write_output os ''JSON'' (json_dumps 0 data) output_path fs
          else (Inr (), fs))"
| "export os XMLExporter data output_path fs =
     (case validate_output_data XMLExporter data of
        Inl e \<Rightarrow>
          (Inl (DataExportError (''Failed to export XML data: '' @ str_exn e) (Some output_path)), fs)
      | Inr valid \<Rightarrow>
          if valid then
            (case generate_xml data of
               Inl e \<Rightarrow>
                 (Inl (DataExportError (''Failed to export XML data: '' @ str_exn e)
                         (Some output_path)), fs)
             | Inr xml_content \<Rightarrow> write_output os ''XML'' xml_content output_path fs)
          else (Inr (), fs))"

section \<open>What the combination is expected to produce\<close>

text \<open>
  The vocabulary of the specification, defined on its own so that the service can be compared
  with it. \<open>field v k\<close> is the value a record holds under a key (\<^verbatim>\<open>None\<close> when the key
  is absent).
\<close>

fun field :: "pyval \<Rightarrow> string \<Rightarrow> pyval" where
  "field (PDict d) k = dict_get d k PNone"
| "field v k = PNone"

text \<open>Two hashable values that a dict treats as the same key.\<close>

definition same_key :: "pyval \<Rightarrow> pyval \<Rightarrow> bool" where
  "same_key a b = (case hash_key a of Inl _ \<Rightarrow> False | Inr k \<Rightarrow> hash_key b = Inr k)"

text \<open>A student refers to a room: its room reference is not null and matches the room's id.\<close>

definition refers_to :: "pyval \<Rightarrow> pyval \<Rightarrow> bool" where
  "refers_to student room =
     (field student ''room'' \<noteq> PNone \<and> same_key (field student ''room'') (field room ''id''))"

text \<open>
  A student is unassigned: its room reference is null, absent, or matches no room id.
\<close>

definition unassigned :: "pyval list \<Rightarrow> pyval \<Rightarrow> bool" where
  "unassigned rooms student = (\<not> list_ex (refers_to student) rooms)"

text \<open>The \<open>{id, name}\<close> entry of a student.\<close>

definition entry_of :: "pyval \<Rightarrow> pyval" where
  "entry_of student = PDict [(''id'', field student ''id''), (''name'', field student ''name'')]"

text \<open>The combined room of an input room: its id, its name, the entries of its students.\<close>

definition room_entry :: "pyval list \<Rightarrow> pyval \<Rightarrow> pyval" where
  "room_entry students room =
     PDict [(''id'', field room ''id''), (''name'', field room ''name''),
            (''students'', PList (map entry_of (filter (\<lambda>s. refers_to s room) students)))]"

text \<open>The synthetic trailing record.\<close>

definition unassigned_entry :: "pyval list \<Rightarrow> pyval list \<Rightarrow> pyval" where
  "unassigned_entry students rooms =
     PDict [(''id'', PNone), (''name'', PStr ''Unassigned Students''),
            (''students'', PList (map entry_of (filter (unassigned rooms) students)))]"

definition expected_output :: "pyval list \<Rightarrow> pyval list \<Rightarrow> pyval list" where
  "expected_output students rooms =
     map (room_entry students) rooms @
     (if filter (unassigned rooms) students = [] then [] else [unassigned_entry students rooms])"

text \<open>A record with the mandatory keys \<open>id\<close> and \<open>name\<close>.\<close>

fun has_keys :: "pyval \<Rightarrow> bool" where
  "has_keys (PDict d) = (dict_contains d ''id'' \<and> dict_contains d ''name'')"
| "has_keys v = False"

text \<open>The students list of an output record.\<close>

fun students_of :: "pyval \<Rightarrow> pyval list" where
  "students_of (PDict d) = (case dict_get d ''students'' PNone of PList l \<Rightarrow> l | _ \<Rightarrow> [])"
| "students_of v = []"

text \<open>The keys of a record, in order.\<close>

fun keys_of :: "pyval \<Rightarrow> string list" where
  "keys_of (PDict d) = map fst d"
| "keys_of v = []"

text \<open>A value that can be a dict key or a set member.\<close>

definition hashable :: "pyval \<Rightarrow> bool" where
  "hashable v = (case hash_key v of Inl _ \<Rightarrow> False | Inr _ \<Rightarrow> True)"

text \<open>The non-null ids of a collection of records, in order.\<close>

definition ids_of :: "pyval list \<Rightarrow> pyval list" where
  "ids_of xs = filter (\<lambda>i. i \<noteq> PNone) (map (\<lambda>x. field x ''id'') xs)"

text \<open>Some id occurs twice.\<close>

fun has_duplicates :: "pyval list \<Rightarrow> bool" where
  "has_duplicates [] = False"
| "has_duplicates (v # vs) = (list_ex (same_key v) vs \<or> has_duplicates vs)"

text \<open>
  A structurally valid input: every student and every room is a record with the keys \<open>id\<close>
  and \<open>name\<close>, and no non-null id occurs twice among the rooms or among the students.
\<close>

definition structurally_valid :: "pyval list \<Rightarrow> pyval list \<Rightarrow> bool" where
  "structurally_valid students rooms =
     (list_all has_keys students \<and> list_all has_keys rooms \<and>
      \<not> has_duplicates (ids_of rooms) \<and> \<not> has_duplicates (ids_of students))"

text \<open>
  Every id and every room reference can be hashed: it is \<^verbatim>\<open>None\<close>, a bool, an int or a
  str, not a list or a dict.
\<close>

definition hashable_keys :: "pyval list \<Rightarrow> pyval list \<Rightarrow> bool" where
  "hashable_keys students rooms =
     (list_all hashable (ids_of rooms) \<and> list_all hashable (ids_of students) \<and>
      list_all (\<lambda>s. hashable (field s ''room'')) students)"

section \<open>What the export validation is expected to report\<close>

text \<open>A record that is a dict with the three mandatory keys.\<close>

fun record_ok :: "pyval \<Rightarrow> bool" where
  "record_ok (PDict d) =
     (dict_contains d ''id'' \<and> dict_contains d ''name'' \<and> dict_contains d ''students'')"
| "record_ok v = False"

text \<open>The index of the first record that is not.\<close>

definition first_bad :: "pyval list \<Rightarrow> nat" where
  "first_bad records = length (takeWhile record_ok records)"

text \<open>The first mandatory key that a dict lacks, and the message for a record at an index.\<close>

definition first_missing :: "(string \<times> pyval) list \<Rightarrow> string" where
  "first_missing d =
     (if \<not> dict_contains d ''id'' then ''id''
      else if \<not> dict_contains d ''name'' then ''name'' else ''students'')"

fun bad_record_message :: "nat \<Rightarrow> pyval \<Rightarrow> string" where
  "bad_record_message i (PDict d) =
     ''Record at index '' @ str_nat i @ '' missing required field: '' @ first_missing d"
| "bad_record_message i v = ''Record at index '' @ str_nat i @ '' must be a dictionary''"

section \<open>Example data\<close>

text \<open>The scenario of the specification: two rooms, three students.\<close>

definition scenario_rooms :: "pyval list" where
  "scenario_rooms =
     [PDict [(''id'', PInt 1), (''name'', PStr ''101'')],
      PDict [(''id'', PInt 2), (''name'', PStr ''102'')]]"

definition scenario_students :: "pyval list" where
  "scenario_students =
     [PDict [(''id'', PInt 1), (''name'', PStr ''Alice''), (''room'', PInt 1)],
      PDict [(''id'', PInt 2), (''name'', PStr ''Bob''), (''room'', PInt 99)],
      PDict [(''id'', PInt 3), (''name'', PStr ''Carol'')]]"

definition scenario_output :: "pyval list" where
  "scenario_output =
     [PDict [(''id'', PInt 1), (''name'', PStr ''101''),
             (''students'', PList [PDict [(''id'', PInt 1), (''name'', PStr ''Alice'')]])],
      PDict [(''id'', PInt 2), (''name'', PStr ''102''), (''students'', PList [])],
      PDict [(''id'', PNone), (''name'', PStr ''Unassigned Students''),
             (''students'', PList [PDict [(''id'', PInt 2), (''name'', PStr ''Bob'')],
                                   PDict [(''id'', PInt 3), (''name'', PStr ''Carol'')]])]]"

text \<open>The student of the scenario whose room reference matches no room.\<close>

definition dangling_student :: "(string \<times> pyval) list" where
  "dangling_student = [(''id'', PInt 2), (''name'', PStr ''Bob''), (''room'', PInt 99)]"

text \<open>Two rooms with the same id.\<close>

definition duplicate_rooms :: "pyval list" where
  "duplicate_rooms =
     [PDict [(''id'', PInt 1), (''name'', PStr ''101'')],
      PDict [(''id'', PInt 1), (''name'', PStr ''102'')]]"

text \<open>Two students with the same id.\<close>

definition duplicate_students :: "pyval list" where
  "duplicate_students =
     [PDict [(''id'', PInt 7), (''name'', PStr ''Ann'')],
      PDict [(''id'', PInt 7), (''name'', PStr ''Ben'')]]"

text \<open>A combined room whose name holds an ampersand.\<close>

definition ampersand_room :: pyval where
  "ampersand_room = PDict [(''id'', PInt 1), (''name'', PStr ''R&D''), (''students'', PList [])]"

text \<open>
  A file system in memory for the examples: a list of paths with their contents, on which
  both operations succeed.
\<close>

definition memory_env :: "(string \<times> string) list env" where
  "memory_env =
     \<lparr>mkdir_parents = (\<lambda>path fs. (None, fs)),
      write_text = (\<lambda>path content fs. (None, AList.update path content fs))\<rparr>"

text \<open>Records for the export: one without the key \<open>students\<close>, one whose students are a number.\<close>

definition incomplete_records :: "pyval list" where
  "incomplete_records =
     [PDict [(''id'', PInt 1), (''name'', PStr ''101''), (''students'', PList [])],
      PDict [(''id'', PInt 2), (''name'', PStr ''102'')]]"

definition odd_records :: "pyval list" where
  "odd_records = [PDict [(''id'', PInt 1), (''name'', PStr ''101''), (''students'', PInt 5)]]"

text \<open>Two rooms whose id is null, and the combination of Carol with them.\<close>

definition annex :: "(string \<times> pyval) list" where
  "annex = [(''id'', PNone), (''name'', PStr ''Annex'')]"

definition null_rooms :: "pyval list" where
  "null_rooms = [PDict annex, PDict [(''id'', PNone), (''name'', PStr ''Attic'')]]"

definition null_rooms_output :: "pyval list" where
  "null_rooms_output =
     [PDict [(''id'', PNone), (''name'', PStr ''Annex''), (''students'', PList [])],
      PDict [(''id'', PNone), (''name'', PStr ''Attic''), (''students'', PList [])],
      PDict [(''id'', PNone), (''name'', PStr ''Unassigned Students''),
             (''students'', PList [PDict [(''id'', PInt 3), (''name'', PStr ''Carol'')]])]]"

section \<open>Notions used in the proofs\<close>

text \<open>
  What the grouping loop tests for a student against a room lookup: its reference is a key of
  the lookup (\<open>in_lookup\<close>), and it is the given key (\<open>keyed\<close>).
\<close>

definition in_lookup :: "(hkey \<rightharpoonup> pyval) \<Rightarrow> pyval \<Rightarrow> bool" where
  "in_lookup lk s =
     (field s ''room'' \<noteq> PNone \<and> (\<exists>k. hash_key (field s ''room'') = Inr k \<and> lk k \<noteq> None))"

definition keyed :: "(hkey \<rightharpoonup> pyval) \<Rightarrow> hkey \<Rightarrow> pyval \<Rightarrow> bool" where
  "keyed lk k s =
     (field s ''room'' \<noteq> PNone \<and> hash_key (field s ''room'') = Inr k \<and> lk k \<noteq> None)"

section \<open>Properties of the validation and of the loops\<close>

lemma validate_students_loop_ok:
  "validate_students_loop i ss = Inr () \<longleftrightarrow> list_all has_keys ss"
  by (induction i ss rule: validate_students_loop.induct) auto

lemma validate_rooms_loop_ok:
  "validate_rooms_loop i rs = Inr () \<longleftrightarrow> list_all has_keys rs"
  by (induction i rs rule: validate_rooms_loop.induct) auto

lemma hash_key_None: "hash_key v = Inr HNone \<longleftrightarrow> v = PNone"
  by (cases v) auto

lemma has_keys_PDict: "has_keys x \<Longrightarrow> \<exists>d. x = PDict d"
  by (cases x) auto

lemma non_null_ids_records:
  "list_all has_keys xs \<Longrightarrow>
   non_null_ids xs = Inr (filter (\<lambda>i. i \<noteq> PNone) (map (\<lambda>x. field x ''id'') xs))"
proof (induction xs)
  case Nil
  then show ?case by simp
next
  case (Cons x xs)
  from Cons.prems obtain d where "x = PDict d" by (cases x) auto
  with Cons show ?case by simp
qed

lemma hash_all_Inr:
  "hash_all xs = Inr ks \<Longrightarrow> list_all2 (\<lambda>x k. hash_key x = Inr k) xs ks"
  by (induction xs arbitrary: ks) (auto split: sum.splits)

lemma entry_of_student_data:
  "has_keys (PDict d) \<Longrightarrow> student_data d = entry_of (PDict d)"
  by (auto simp: entry_of_def student_data_def dict_get_def dict_contains_def split: option.splits)

lemma bucket_upd: "bucket (m(k0 \<mapsto> x)) k = (if k = k0 then x else bucket m k)"
  by (simp add: bucket_def)

lemma group_students_loop_result:
  "list_all has_keys ss \<Longrightarrow>
   group_students_loop ss lk br un = Inr (br', un') \<Longrightarrow>
   un' = un @ map entry_of (filter (\<lambda>s. \<not> in_lookup lk s) ss) \<and>
   (\<forall>k. bucket br' k = bucket br k @ map entry_of (filter (keyed lk k) ss))"
proof (induction ss arbitrary: br un)
  case Nil
  then show ?case by simp
next
  case (Cons s ss)
  from Cons.prems(1) obtain d where d: "s = PDict d" by (cases s) auto
  have e: "student_data d = entry_of s"
    using Cons.prems(1) d entry_of_student_data by simp
  have rest: "list_all has_keys ss" using Cons.prems(1) by simp
  show ?case
  proof (cases "dict_get d ''room'' PNone = PNone")
    case True
    then have "group_students_loop ss lk br (un @ [entry_of s]) = Inr (br', un')"
      using Cons.prems(2) d e by simp
    from Cons.IH[OF rest this] True d show ?thesis
      by (simp add: in_lookup_def keyed_def)
  next
    case False
    then obtain k0 where k0: "hash_key (dict_get d ''room'' PNone) = Inr k0"
      using Cons.prems(2) d by (auto simp: Let_def split: sum.splits)
    show ?thesis
    proof (cases "lk k0 = None")
      case True
      then have "group_students_loop ss lk br (un @ [entry_of s]) = Inr (br', un')"
        using Cons.prems(2) d e False k0 by simp
      from Cons.IH[OF rest this] True False d k0 show ?thesis
        by (auto simp add: in_lookup_def keyed_def)
    next
      case nn: False
      then have "group_students_loop ss lk (br(k0 \<mapsto> bucket br k0 @ [entry_of s])) un = Inr (br', un')"
        using Cons.prems(2) d e False k0 by (simp add: Let_def)
      from Cons.IH[OF rest this] nn False d k0 show ?thesis
        by (auto simp add: in_lookup_def keyed_def bucket_def)
    qed
  qed
qed


lemma build_room_lookup_loop_dom:
  "build_room_lookup_loop rs lk = Inr lk' \<Longrightarrow>
   (lk' k \<noteq> None) =
   (lk k \<noteq> None \<or> list_ex (\<lambda>r. field r ''id'' \<noteq> PNone \<and> hash_key (field r ''id'') = Inr k) rs)"
proof (induction rs arbitrary: lk)
  case Nil
  then show ?case by simp
next
  case (Cons r rs)
  from Cons.prems obtain d where d: "r = PDict d"
    by (cases r) (auto simp: no_attribute_def)
  show ?case
  proof (cases "dict_get d ''id'' PNone = PNone")
    case True
    with Cons.prems d have "build_room_lookup_loop rs lk = Inr lk'" by simp
    from Cons.IH[OF this] True d show ?thesis by simp
  next
    case False
    with Cons.prems d obtain k0 where k0: "hash_key (dict_get d ''id'' PNone) = Inr k0"
      and rec: "build_room_lookup_loop rs (lk(k0 \<mapsto> r)) = Inr lk'"
      by (auto split: sum.splits)
    from Cons.IH[OF rec] False d k0 show ?thesis by auto
  qed
qed

lemma build_combined_rooms_loop_result:
  "list_all has_keys rs \<Longrightarrow> build_combined_rooms_loop rs br = Inr res \<Longrightarrow>
   list_all2 (\<lambda>r out. \<exists>k. hash_key (field r ''id'') = Inr k \<and>
      out = PDict [(''id'', field r ''id''), (''name'', field r ''name''),
                   (''students'', PList (bucket br k))]) rs res"
proof (induction rs arbitrary: res)
  case Nil
  then show ?case by simp
next
  case (Cons r rs)
  from Cons.prems(1) obtain d where d: "r = PDict d" by (cases r) auto
  have nm: "dict_get d ''name'' (PStr ''Unknown Room'') = field r ''name''"
    using Cons.prems(1) d by (auto simp: dict_get_def dict_contains_def split: option.splits)
  from Cons.prems(2) d obtain k rest where k: "hash_key (dict_get d ''id'' PNone) = Inr k"
    and rest: "build_combined_rooms_loop rs br = Inr rest"
    and res: "res = to_dict \<lparr>cr_id = dict_get d ''id'' PNone,
                             cr_name = dict_get d ''name'' (PStr ''Unknown Room''),
                             cr_students = bucket br k\<rparr> # rest"
    by (auto simp: Let_def split: sum.splits)
  have "list_all has_keys rs" using Cons.prems(1) by simp
  from Cons.IH[OF this rest] k res nm d show ?case
    by (simp add: to_dict_def)
qed


lemma refers_to_keyed:
  assumes lk: "\<And>k. (lk k \<noteq> None) =
      list_ex (\<lambda>r. field r ''id'' \<noteq> PNone \<and> hash_key (field r ''id'') = Inr k) rs"
    and r: "r \<in> set rs" and k: "hash_key (field r ''id'') = Inr k"
  shows "keyed lk k s = refers_to s r"
proof (cases "field r ''id'' = PNone")
  case True
  with k have "k = HNone" by simp
  then show ?thesis
    using True by (auto simp: keyed_def refers_to_def same_key_def hash_key_None split: sum.splits)
next
  case False
  with r k have "lk k \<noteq> None" unfolding lk list_ex_iff by blast
  then show ?thesis
    using k by (auto simp: keyed_def refers_to_def same_key_def split: sum.splits)
qed

lemma same_key_iff: "same_key a b = (\<exists>k. hash_key a = Inr k \<and> hash_key b = Inr k)"
  by (cases "hash_key a") (auto simp: same_key_def)

lemma in_lookup_assigned:
  assumes lk: "\<And>k. (lk k \<noteq> None) =
      list_ex (\<lambda>r. field r ''id'' \<noteq> PNone \<and> hash_key (field r ''id'') = Inr k) rs"
  shows "(\<not> in_lookup lk s) = unassigned rs s"
proof -
  have "in_lookup lk s = list_ex (refers_to s) rs"
    unfolding in_lookup_def lk list_ex_iff refers_to_def same_key_iff
    by (metis hash_key_None)
  then show ?thesis by (simp add: unassigned_def)
qed


lemma validate_students_data_ok:
  "validate_students_data S = Inr () \<longleftrightarrow> (\<exists>ss. S = PList ss \<and> list_all has_keys ss)"
  by (cases S) (auto simp: validate_students_loop_ok)

lemma validate_rooms_data_ok:
  "validate_rooms_data R = Inr () \<longleftrightarrow> (\<exists>rs. R = PList rs \<and> list_all has_keys rs)"
  by (cases R) (auto simp: validate_rooms_loop_ok)

lemma validate_input_data_Inr:
  "validate_input_data S R = Inr b \<longleftrightarrow>
   b \<and> validate_students_data S = Inr () \<and> validate_rooms_data R = Inr () \<and>
   validate_business_rules S R = Inr ()"
  by (auto simp: validate_input_data_def validate_input_body_def split: sum.splits)

lemma room_entries:
  assumes l2: "list_all2 (\<lambda>r out. \<exists>k. hash_key (field r ''id'') = Inr k \<and>
      out = PDict [(''id'', field r ''id''), (''name'', field r ''name''),
                   (''students'', PList (bucket br k))]) rs res"
    and br: "\<And>r k. r \<in> set rs \<Longrightarrow> hash_key (field r ''id'') = Inr k \<Longrightarrow>
      bucket br k = map entry_of (filter (\<lambda>s. refers_to s r) ss)"
  shows "res = map (room_entry ss) rs"
  using l2 br
proof (induction rs res rule: list_all2_induct)
  case Nil
  then show ?case by simp
next
  case (Cons r rs out res)
  then show ?case by (auto simp: room_entry_def)
qed

lemma combine_data_expected:
  assumes "combine_data (PList ss) (PList rs) = Inr out"
  shows "out = expected_output ss rs"
proof -
  from assms obtain b where v: "validate_input_data (PList ss) (PList rs) = Inr b"
    by (auto simp: combine_data_def split: sum.splits)
  then have hs: "list_all has_keys ss" and hr: "list_all has_keys rs"
    by (auto simp: validate_input_data_Inr validate_students_loop_ok validate_rooms_loop_ok)
  from assms v obtain lk br un res where
    lk: "build_room_lookup_loop rs Map.empty = Inr lk"
    and g: "group_students_loop ss lk Map.empty [] = Inr (br, un)"
    and c: "build_combined_rooms_loop rs br = Inr res"
    and out: "out = (if un \<noteq> [] then res @ [to_dict \<lparr>cr_id = PNone,
                 cr_name = PStr ''Unassigned Students'', cr_students = un\<rparr>] else res)"
    by (auto simp: combine_data_def build_room_lookup_def group_students_by_room_def
          build_combined_rooms_def split: sum.splits prod.splits if_splits)
  have lkp: "(lk k \<noteq> None) =
      list_ex (\<lambda>r. field r ''id'' \<noteq> PNone \<and> hash_key (field r ''id'') = Inr k) rs" for k
    using build_room_lookup_loop_dom[OF lk, of k] by simp
  from group_students_loop_result[OF hs g]
  have un: "un = map entry_of (filter (unassigned rs) ss)"
    and br: "\<And>k. bucket br k = map entry_of (filter (keyed lk k) ss)"
    by (simp_all add: in_lookup_assigned[of lk rs, OF lkp] bucket_def)
  have "res = map (room_entry ss) rs"
  proof (rule room_entries[OF build_combined_rooms_loop_result[OF hr c]])
    fix r k assume "r \<in> set rs" "hash_key (field r ''id'') = Inr k"
    then have "keyed lk k = (\<lambda>s. refers_to s r)"
      using refers_to_keyed[of lk rs r k, OF lkp] by (intro ext) simp
    then show "bucket br k = map entry_of (filter (\<lambda>s. refers_to s r) ss)"
      using br by simp
  qed
  with out un show ?thesis
    by (simp add: expected_output_def unassigned_entry_def to_dict_def)
qed

lemma combine_data_lists:
  "combine_data S R = Inr out \<Longrightarrow> \<exists>ss rs. S = PList ss \<and> R = PList rs"
  by (auto simp: combine_data_def validate_input_data_Inr validate_students_data_ok
      validate_rooms_data_ok split: sum.splits)


lemma hashable_iff: "hashable v = (\<exists>k. hash_key v = Inr k)"
  by (cases "hash_key v") (auto simp: hashable_def)

lemma hash_key_Inl: "hash_key v = Inl e \<Longrightarrow> \<exists>m. e = TypeError m"
  by (cases v) auto

lemma hash_all_Inr_D: "hash_all xs = Inr ks \<Longrightarrow> map hash_key xs = map Inr ks"
  by (induction xs arbitrary: ks) (auto split: sum.splits)

lemma hash_all_Inr_I: "map hash_key xs = map Inr ks \<Longrightarrow> hash_all xs = Inr ks"
  by (induction xs arbitrary: ks) auto

lemma hash_all_Inr_iff: "hash_all xs = Inr ks \<longleftrightarrow> map hash_key xs = map Inr ks"
  using hash_all_Inr_D hash_all_Inr_I by blast

lemma hash_all_Inl: "hash_all xs = Inl e \<Longrightarrow> (\<exists>m. e = TypeError m) \<and> \<not> list_all hashable xs"
  by (induction xs) (auto simp: hashable_iff split: sum.splits dest: hash_key_Inl)

lemma hash_all_hashable: "hash_all xs = Inr ks \<Longrightarrow> list_all hashable xs"
  by (induction xs arbitrary: ks) (auto simp: hashable_iff split: sum.splits)

lemma same_key_hashable: "hashable v \<Longrightarrow> same_key v w = (hash_key v = hash_key w)"
  by (auto simp: same_key_iff hashable_iff)

lemma has_duplicates_distinct:
  "list_all hashable vs \<Longrightarrow> has_duplicates vs = (\<not> distinct (map hash_key vs))"
proof (induction vs)
  case Nil
  then show ?case by simp
next
  case (Cons v vs)
  then have "list_ex (same_key v) vs = (hash_key v \<in> hash_key ` set vs)"
    by (auto simp: list_ex_iff same_key_hashable image_iff)
  with Cons show ?case by simp
qed

lemma length_remdups_distinct: "(length ks = length (remdups ks)) = distinct ks"
  by (metis length_remdups_eq remdups_id_iff_distinct)

lemma check_duplicates_records:
  assumes "list_all has_keys xs"
  shows "check_duplicates (PList xs) msg =
     (case hash_all (ids_of xs) of
        Inl e \<Rightarrow> Inl e
      | Inr ks \<Rightarrow> if has_duplicates (ids_of xs) then Inl (ValidationError msg) else Inr ())"
proof -
  have n: "non_null_ids xs = Inr (ids_of xs)"
    using non_null_ids_records[OF assms] by (simp add: ids_of_def)
  show ?thesis
  proof (cases "hash_all (ids_of xs)")
    case (Inl e)
    then show ?thesis by (simp add: check_duplicates_def n len_set_def)
  next
    case (Inr ks)
    then have m: "map hash_key (ids_of xs) = map Inr ks" by (simp add: hash_all_Inr_iff)
    then have "length (ids_of xs) = length ks" using length_map by metis
    moreover have "distinct (map hash_key (ids_of xs)) = distinct ks"
      unfolding m by (simp add: distinct_map)
    ultimately have "(length (ids_of xs) = length (remdups ks)) = (\<not> has_duplicates (ids_of xs))"
      using has_duplicates_distinct[OF hash_all_hashable[OF Inr]] length_remdups_distinct[of ks]
      by simp
    then show ?thesis using Inr by (auto simp add: check_duplicates_def n len_set_def)
  qed
qed

section \<open>When the combination returns\<close>

lemma build_room_lookup_loop_total:
  "list_all has_keys rs \<Longrightarrow> list_all hashable (ids_of rs) \<Longrightarrow>
   \<exists>lk'. build_room_lookup_loop rs lk = Inr lk'"
proof (induction rs arbitrary: lk)
  case Nil
  then show ?case by simp
next
  case (Cons r rs)
  from Cons.prems(1) obtain d where d: "r = PDict d" by (cases r) auto
  have rest: "list_all has_keys rs" "list_all hashable (ids_of rs)"
    using Cons.prems by (auto simp: ids_of_def split: if_splits)
  show ?case
  proof (cases "dict_get d ''id'' PNone = PNone")
    case True
    then show ?thesis using Cons.IH[OF rest] d by simp
  next
    case False
    then have "hashable (dict_get d ''id'' PNone)"
      using Cons.prems(2) d by (simp add: ids_of_def)
    then obtain k where "hash_key (dict_get d ''id'' PNone) = Inr k"
      by (auto simp: hashable_iff)
    then show ?thesis using Cons.IH[OF rest] d False by simp
  qed
qed

lemma group_students_loop_total:
  "list_all has_keys ss \<Longrightarrow> list_all (\<lambda>s. hashable (field s ''room'')) ss \<Longrightarrow>
   \<exists>r. group_students_loop ss lk br un = Inr r"
proof (induction ss arbitrary: br un)
  case Nil
  then show ?case by simp
next
  case (Cons s ss)
  from Cons.prems(1) obtain d where d: "s = PDict d" by (cases s) auto
  have rest: "list_all has_keys ss" "list_all (\<lambda>s. hashable (field s ''room'')) ss"
    using Cons.prems by auto
  from Cons.prems(2) d obtain k where k: "hash_key (dict_get d ''room'' PNone) = Inr k"
    by (auto simp: hashable_iff)
  show ?case
    using Cons.IH[OF rest] d k by (simp add: Let_def)
qed

lemma build_combined_rooms_loop_total:
  "list_all has_keys rs \<Longrightarrow> list_all hashable (ids_of rs) \<Longrightarrow>
   \<exists>res. build_combined_rooms_loop rs br = Inr res"
proof (induction rs)
  case Nil
  then show ?case by simp
next
  case (Cons r rs)
  from Cons.prems(1) obtain d where d: "r = PDict d" by (cases r) auto
  have rest: "list_all has_keys rs" "list_all hashable (ids_of rs)"
    using Cons.prems by (auto simp: ids_of_def split: if_splits)
  have "hashable (dict_get d ''id'' PNone)"
    using Cons.prems(2) d by (cases "dict_get d ''id'' PNone = PNone") (auto simp: ids_of_def hashable_def)
  then obtain k where "hash_key (dict_get d ''id'' PNone) = Inr k"
    by (auto simp: hashable_iff)
  then show ?case using Cons.IH[OF rest] d by (auto simp: Let_def)
qed

lemma hash_all_total: "list_all hashable xs \<Longrightarrow> \<exists>ks. hash_all xs = Inr ks"
  by (induction xs) (auto simp: hashable_iff)

lemma check_duplicates_ok:
  "list_all has_keys xs \<Longrightarrow> list_all hashable (ids_of xs) \<Longrightarrow> \<not> has_duplicates (ids_of xs) \<Longrightarrow>
   check_duplicates (PList xs) msg = Inr ()"
  using hash_all_total[of "ids_of xs"] by (auto simp: check_duplicates_records)

lemma validate_input_data_ok:
  assumes "structurally_valid ss rs" and "hashable_keys ss rs"
  shows "validate_input_data (PList ss) (PList rs) = Inr True"
proof -
  have "validate_students_loop 0 ss = Inr ()" "validate_rooms_loop 0 rs = Inr ()"
    using assms(1) by (simp_all add: validate_students_loop_ok validate_rooms_loop_ok
        structurally_valid_def)
  moreover have "validate_business_rules (PList ss) (PList rs) = Inr ()"
    using assms by (simp add: structurally_valid_def hashable_keys_def
        validate_business_rules_def check_duplicates_ok)
  ultimately show ?thesis
    by (simp add: validate_input_data_def validate_input_body_def)
qed

lemma combine_data_returns:
  assumes sv: "structurally_valid ss rs" and hk: "hashable_keys ss rs"
  shows "combine_data (PList ss) (PList rs) = Inr (expected_output ss rs)"
proof -
  have hs: "list_all has_keys ss" and hr: "list_all has_keys rs"
    and ir: "list_all hashable (ids_of rs)" and rf: "list_all (\<lambda>s. hashable (field s ''room'')) ss"
    using sv hk by (simp_all add: structurally_valid_def hashable_keys_def)
  obtain lk where lk: "build_room_lookup_loop rs Map.empty = Inr lk"
    using build_room_lookup_loop_total[OF hr ir] by blast
  obtain br un where g: "group_students_loop ss lk Map.empty [] = Inr (br, un)"
    using group_students_loop_total[OF hs rf] by fastforce
  obtain res where c: "build_combined_rooms_loop rs br = Inr res"
    using build_combined_rooms_loop_total[OF hr ir] by blast
  have "\<exists>out. combine_data (PList ss) (PList rs) = Inr out"
    using validate_input_data_ok[OF sv hk] lk g c
    by (simp add: combine_data_def build_room_lookup_def group_students_by_room_def
        build_combined_rooms_def)
  then show ?thesis using combine_data_expected by blast
qed

text \<open>The three outcomes of a duplicate check on records with the mandatory keys.\<close>

lemma check_duplicates_cases:
  assumes "list_all has_keys xs"
  shows "list_all hashable (ids_of xs) \<Longrightarrow> has_duplicates (ids_of xs) \<Longrightarrow>
           check_duplicates (PList xs) msg = Inl (ValidationError msg)"
    and "list_all hashable (ids_of xs) \<Longrightarrow> \<not> has_duplicates (ids_of xs) \<Longrightarrow>
           check_duplicates (PList xs) msg = Inr ()"
    and "\<not> list_all hashable (ids_of xs) \<Longrightarrow> \<exists>m. check_duplicates (PList xs) msg = Inl (TypeError m)"
proof -
  show "list_all hashable (ids_of xs) \<Longrightarrow> has_duplicates (ids_of xs) \<Longrightarrow>
           check_duplicates (PList xs) msg = Inl (ValidationError msg)"
    using hash_all_total[of "ids_of xs"] by (auto simp: check_duplicates_records[OF assms])
  show "list_all hashable (ids_of xs) \<Longrightarrow> \<not> has_duplicates (ids_of xs) \<Longrightarrow>
           check_duplicates (PList xs) msg = Inr ()"
    using check_duplicates_ok[OF assms] by simp
  show "\<not> list_all hashable (ids_of xs) \<Longrightarrow> \<exists>m. check_duplicates (PList xs) msg = Inl (TypeError m)"
    using hash_all_hashable[of "ids_of xs"] hash_all_Inl[of "ids_of xs"]
    by (cases "hash_all (ids_of xs)") (auto simp: check_duplicates_records[OF assms])
qed

section \<open>The claims\<close>

subsection \<open>C1: length of the output\<close>

text \<open>
  C1, as amended. For every structurally valid students list and rooms list (records with the
  keys \<open>id\<close> and \<open>name\<close>, no duplicate non-null ids) in which every non-null id and every
  room reference can be hashed, \<open>combine_data\<close> returns a list; its length is the number of
  rooms plus one if at least one student is unassigned (room reference null, absent, or
  matching no room id), and the number of rooms otherwise; when present, the extra element is
  the single trailing record with id null and name \<open>Unassigned Students\<close> that holds all
  unassigned students.
\<close>

theorem combine_data_length:
  assumes "structurally_valid students rooms" and "hashable_keys students rooms"
  shows "\<exists>out. combine_data (PList students) (PList rooms) = Inr out \<and>
     length out = (if list_ex (unassigned rooms) students then length rooms + 1 else length rooms) \<and>
     drop (length rooms) out =
       (if list_ex (unassigned rooms) students then [unassigned_entry students rooms] else [])"
proof -
  have "(filter (unassigned rooms) students = []) = (\<not> list_ex (unassigned rooms) students)"
    by (auto simp: filter_empty_conv list_ex_iff)
  then show ?thesis
    using combine_data_returns[OF assms] by (simp add: expected_output_def)
qed

text \<open>The scenario of the specification satisfies the hypotheses of C1: three records.\<close>

theorem combine_data_length_witness:
  "structurally_valid scenario_students scenario_rooms \<and>
   hashable_keys scenario_students scenario_rooms \<and>
   list_ex (unassigned scenario_rooms) scenario_students \<and>
   combine_data (PList scenario_students) (PList scenario_rooms) = Inr scenario_output \<and>
   length scenario_output = length scenario_rooms + 1 \<and>
   drop (length scenario_rooms) scenario_output =
     [unassigned_entry scenario_students scenario_rooms]"
proof -
  have a: "structurally_valid scenario_students scenario_rooms" by code_simp
  have b: "hashable_keys scenario_students scenario_rooms" by code_simp
  have c: "list_ex (unassigned scenario_rooms) scenario_students" by code_simp
  have d: "combine_data (PList scenario_students) (PList scenario_rooms) = Inr scenario_output"
    by code_simp
  from combine_data_length[OF a b] a b c d show ?thesis by auto
qed

text \<open>
  C1 as stated fails: one student whose room reference is an empty list, no rooms. The input
  is structurally valid and the student is unassigned, so the claim promises a list of length
  one; the membership test \<^verbatim>\<open>room_id in room_lookup\<close> raises \<^verbatim>\<open>TypeError\<close> instead.
\<close>

theorem combine_data_length_counterexample:
  "structurally_valid [PDict [(''id'', PInt 1), (''name'', PStr ''Alice''), (''room'', PList [])]] [] \<and>
   list_ex (unassigned []) [PDict [(''id'', PInt 1), (''name'', PStr ''Alice''), (''room'', PList [])]] \<and>
   combine_data (PList [PDict [(''id'', PInt 1), (''name'', PStr ''Alice''), (''room'', PList [])]])
     (PList []) = Inl (TypeError (''unhashable type: '' @ squote ''list''))"
  by code_simp

subsection \<open>C2: order of the output\<close>

text \<open>
  C2, as amended. For every structurally valid input in which every non-null id and every room
  reference can be hashed, the output of \<open>combine_data\<close> is one combined room per input room,
  in the order of the input rooms (a room without students has the empty students list),
  followed by the unassigned record if any student is unassigned; the students of every
  record are the entries of the input students that belong there, in the order of the input
  students (\<open>filter\<close> keeps the order).
\<close>

theorem combine_data_order:
  assumes "structurally_valid students rooms" and "hashable_keys students rooms"
  shows "combine_data (PList students) (PList rooms) =
     Inr (map (room_entry students) rooms @
          (if list_ex (unassigned rooms) students then [unassigned_entry students rooms] else []))"
proof -
  have "(filter (unassigned rooms) students = []) = (\<not> list_ex (unassigned rooms) students)"
    by (auto simp: filter_empty_conv list_ex_iff)
  then show ?thesis
    using combine_data_returns[OF assms] by (simp add: expected_output_def)
qed

text \<open>The scenario of the specification satisfies the hypotheses of C2.\<close>

theorem combine_data_order_witness:
  "structurally_valid scenario_students scenario_rooms \<and>
   hashable_keys scenario_students scenario_rooms \<and>
   combine_data (PList scenario_students) (PList scenario_rooms) =
     Inr (map (room_entry scenario_students) scenario_rooms @
          [unassigned_entry scenario_students scenario_rooms]) \<and>
   map (room_entry scenario_students) scenario_rooms @
          [unassigned_entry scenario_students scenario_rooms] = scenario_output"
proof -
  have a: "structurally_valid scenario_students scenario_rooms" by code_simp
  have b: "hashable_keys scenario_students scenario_rooms" by code_simp
  have c: "list_ex (unassigned scenario_rooms) scenario_students" by code_simp
  have d: "map (room_entry scenario_students) scenario_rooms @
          [unassigned_entry scenario_students scenario_rooms] = scenario_output" by code_simp
  from combine_data_order[OF a b] a b c d show ?thesis by simp
qed

text \<open>
  C2 as stated fails: no students, one room whose id is an empty dict. The input is
  structurally valid, but building the set of room ids raises \<^verbatim>\<open>TypeError\<close>, which
  \<^verbatim>\<open>validate_input_data\<close> turns into a \<^verbatim>\<open>ValidationError\<close>: no combined room is listed.
\<close>

theorem combine_data_order_counterexample:
  "structurally_valid [] [PDict [(''id'', PDict []), (''name'', PStr ''101'')]] \<and>
   combine_data (PList []) (PList [PDict [(''id'', PDict []), (''name'', PStr ''101'')]]) =
     Inl (ValidationError (''Input validation failed: unhashable type: '' @ squote ''dict''))"
  by code_simp

subsection \<open>C3: a reference to a room that does not exist\<close>

text \<open>
  Replacing one student record inside the list leaves each loop's result unchanged when the
  new record agrees with the old one on what the loop reads.
\<close>

lemma validate_students_loop_swap:
  assumes "dict_contains d' ''id'' = dict_contains d ''id''"
    and "dict_contains d' ''name'' = dict_contains d ''name''"
  shows "validate_students_loop j (xs @ PDict d' # ys) = validate_students_loop j (xs @ PDict d # ys)"
  using assms by (induction j xs rule: validate_students_loop.induct) auto

lemma non_null_ids_swap:
  assumes "dict_get d' ''id'' PNone = dict_get d ''id'' PNone"
  shows "non_null_ids (xs @ PDict d' # ys) = non_null_ids (xs @ PDict d # ys)"
  using assms by (induction xs) (auto split: sum.splits)

lemma group_students_loop_swap:
  assumes "student_data d' = student_data d"
    and "dict_get d' ''room'' PNone = PNone"
    and "dict_get d ''room'' PNone = PNone \<or>
         (\<exists>k. hash_key (dict_get d ''room'' PNone) = Inr k \<and> lk k = None)"
  shows "group_students_loop (xs @ PDict d' # ys) lk br un =
         group_students_loop (xs @ PDict d # ys) lk br un"
  using assms
  by (induction xs lk br un rule: group_students_loop.induct) (auto simp: Let_def split: sum.splits)


lemma check_duplicates_swap:
  assumes "dict_get d' ''id'' PNone = dict_get d ''id'' PNone"
  shows "check_duplicates (PList (xs @ PDict d' # ys)) msg =
         check_duplicates (PList (xs @ PDict d # ys)) msg"
  by (simp add: check_duplicates_def non_null_ids_swap[OF assms])

lemma validate_input_data_swap:
  assumes "dict_contains d' ''id'' = dict_contains d ''id''"
    and "dict_contains d' ''name'' = dict_contains d ''name''"
    and "dict_get d' ''id'' PNone = dict_get d ''id'' PNone"
  shows "validate_input_data (PList (xs @ PDict d' # ys)) R =
         validate_input_data (PList (xs @ PDict d # ys)) R"
  by (simp add: validate_input_data_def validate_input_body_def validate_business_rules_def
      validate_students_loop_swap[OF assms(1,2)] check_duplicates_swap[OF assms(3)]
      cong: sum.case_cong)

lemma combine_data_swap:
  assumes c1: "dict_contains d' ''id'' = dict_contains d ''id''"
    and c2: "dict_contains d' ''name'' = dict_contains d ''name''"
    and g: "dict_get d' ''id'' PNone = dict_get d ''id'' PNone"
    and sd: "student_data d' = student_data d"
    and r: "dict_get d' ''room'' PNone = PNone"
    and un: "unassigned rooms (PDict d)"
    and h: "hashable (field (PDict d) ''room'')"
  shows "combine_data (PList (xs @ PDict d' # ys)) (PList rooms) =
         combine_data (PList (xs @ PDict d # ys)) (PList rooms)"
proof (cases "build_room_lookup_loop rooms Map.empty")
  case (Inl e)
  then show ?thesis
    by (simp add: combine_data_def validate_input_data_swap[OF c1 c2 g] build_room_lookup_def
        split: sum.splits)
next
  case (Inr lk)
  have lkp: "(lk k \<noteq> None) =
      list_ex (\<lambda>r. field r ''id'' \<noteq> PNone \<and> hash_key (field r ''id'') = Inr k) rooms" for k
    using build_room_lookup_loop_dom[OF Inr, of k] by simp
  have "\<not> in_lookup lk (PDict d)"
    using in_lookup_assigned[of lk rooms "PDict d", OF lkp] un by simp
  moreover obtain k where "hash_key (dict_get d ''room'' PNone) = Inr k"
    using h by (auto simp: hashable_iff)
  ultimately have "dict_get d ''room'' PNone = PNone \<or>
         (\<exists>k. hash_key (dict_get d ''room'' PNone) = Inr k \<and> lk k = None)"
    by (auto simp: in_lookup_def)
  from group_students_loop_swap[OF sd r this]
  have "group_students_by_room (PList (xs @ PDict d' # ys)) lk =
        group_students_by_room (PList (xs @ PDict d # ys)) lk"
    by (simp add: group_students_by_room_def)
  then show ?thesis
    using Inr
    by (simp add: combine_data_def validate_input_data_swap[OF c1 c2 g] build_room_lookup_def
        cong: sum.case_cong)
qed

text \<open>
  C3, as amended. For every students list and rooms list: if the room reference of one
  student matches no room id and can be hashed (it is not a list or a dict), then replacing it
  by null, or removing the \<open>room\<close> key, leaves the outcome of \<open>combine_data\<close> unchanged, the
  returned list as well as any exception. The student is placed in the unassigned bucket
  exactly as a student without room reference, and the dangling reference raises nothing.
\<close>

theorem dangling_reference:
  assumes "i < length students" and "students ! i = PDict d"
    and "unassigned rooms (PDict d)" and "hashable (field (PDict d) ''room'')"
  shows "combine_data (PList (students[i := PDict (AList.update ''room'' PNone d)])) (PList rooms) =
           combine_data (PList students) (PList rooms) \<and>
         combine_data (PList (students[i := PDict (AList.delete ''room'' d)])) (PList rooms) =
           combine_data (PList students) (PList rooms)"
proof -
  let ?xs = "take i students" and ?ys = "drop (Suc i) students"
  have ss: "students = ?xs @ PDict d # ?ys"
    using assms(1,2) id_take_nth_drop by fastforce
  have upd: "students[i := v] = ?xs @ v # ?ys" for v
    using assms(1) by (rule upd_conv_take_nth_drop)
  have a: "combine_data (PList (?xs @ PDict (AList.update ''room'' PNone d) # ?ys)) (PList rooms) =
           combine_data (PList (?xs @ PDict d # ?ys)) (PList rooms)"
    by (rule combine_data_swap[OF _ _ _ _ _ assms(3,4)])
       (simp_all add: dict_contains_def dict_get_def student_data_def update_conv')
  have b: "combine_data (PList (?xs @ PDict (AList.delete ''room'' d) # ?ys)) (PList rooms) =
           combine_data (PList (?xs @ PDict d # ?ys)) (PList rooms)"
    by (rule combine_data_swap[OF _ _ _ _ _ assms(3,4)])
       (simp_all add: dict_contains_def dict_get_def student_data_def delete_conv')
  show ?thesis
    unfolding upd using a b ss by simp
qed

text \<open>
  Bob of the scenario refers to room 99, which does not exist: with the reference set to
  null or removed, the output is the one of the scenario.
\<close>

theorem dangling_reference_witness:
  "(1::nat) < length scenario_students \<and> scenario_students ! 1 = PDict dangling_student \<and>
   unassigned scenario_rooms (PDict dangling_student) \<and>
   hashable (field (PDict dangling_student) ''room'') \<and>
   combine_data (PList (scenario_students[1 := PDict (AList.update ''room'' PNone dangling_student)]))
     (PList scenario_rooms) = Inr scenario_output \<and>
   combine_data (PList (scenario_students[1 := PDict (AList.delete ''room'' dangling_student)]))
     (PList scenario_rooms) = Inr scenario_output"
proof -
  have a: "(1::nat) < length scenario_students" by code_simp
  have b: "scenario_students ! 1 = PDict dangling_student" by code_simp
  have c: "unassigned scenario_rooms (PDict dangling_student)" by code_simp
  have d: "hashable (field (PDict dangling_student) ''room'')" by code_simp
  have e: "combine_data (PList scenario_students) (PList scenario_rooms) = Inr scenario_output"
    by code_simp
  from dangling_reference[OF a b c d] a b c d e show ?thesis by simp
qed

text \<open>
  C3 as stated fails for a reference that cannot be hashed: the room reference \<open>[7]\<close>
  matches no room id, yet \<open>combine_data\<close> raises \<^verbatim>\<open>TypeError\<close> for it, while the same
  student with a null reference is put in the unassigned bucket.
\<close>

theorem dangling_reference_counterexample:
  "unassigned scenario_rooms (PDict [(''id'', PInt 4), (''name'', PStr ''Dan''), (''room'', PList [PInt 7])]) \<and>
   combine_data (PList [PDict [(''id'', PInt 4), (''name'', PStr ''Dan''), (''room'', PList [PInt 7])]])
     (PList scenario_rooms) = Inl (TypeError (''unhashable type: '' @ squote ''list'')) \<and>
   combine_data (PList [PDict [(''id'', PInt 4), (''name'', PStr ''Dan''), (''room'', PNone)]])
     (PList scenario_rooms) =
     Inr [PDict [(''id'', PInt 1), (''name'', PStr ''101''), (''students'', PList [])],
          PDict [(''id'', PInt 2), (''name'', PStr ''102''), (''students'', PList [])],
          PDict [(''id'', PNone), (''name'', PStr ''Unassigned Students''),
                 (''students'', PList [PDict [(''id'', PInt 4), (''name'', PStr ''Dan'')]])]]"
  by code_simp

subsection \<open>C4: duplicate ids\<close>

text \<open>
  After a successful validation only the grouping loop can still raise, and only a
  \<^verbatim>\<open>TypeError\<close>; before it, \<open>validate_input_data\<close> turns whatever the two duplicate
  checks raise into a \<^verbatim>\<open>ValidationError\<close>, which \<open>combine_data\<close> lets through.
\<close>

lemma group_students_loop_Inl:
  "list_all has_keys ss \<Longrightarrow> group_students_loop ss lk br un = Inl e \<Longrightarrow> \<exists>m. e = TypeError m"
proof (induction ss arbitrary: br un)
  case Nil
  then show ?case by simp
next
  case (Cons s ss)
  from Cons.prems(1) obtain d where d: "s = PDict d" by (cases s) auto
  have rest: "list_all has_keys ss" using Cons.prems(1) by simp
  show ?case
    using Cons.prems(2) Cons.IH[OF rest] d
    by (auto simp: Let_def split: if_splits sum.splits dest: hash_key_Inl)
qed

lemma combine_data_after_validation:
  assumes "validate_input_data (PList ss) (PList rs) = Inr b"
  shows "combine_data (PList ss) (PList rs) \<noteq> Inl (ValidationError msg)"
proof -
  have hs: "list_all has_keys ss" and hr: "list_all has_keys rs"
    and vb: "validate_business_rules (PList ss) (PList rs) = Inr ()"
    using assms
    by (auto simp: validate_input_data_Inr validate_students_loop_ok validate_rooms_loop_ok)
  have "check_duplicates (PList rs) ''Duplicate room IDs found'' = Inr ()"
    using vb by (auto simp: validate_business_rules_def split: sum.splits)
  then have ir: "list_all hashable (ids_of rs)"
    using check_duplicates_cases(3)[OF hr, of "''Duplicate room IDs found''"] by auto
  obtain lk where lk: "build_room_lookup_loop rs Map.empty = Inr lk"
    using build_room_lookup_loop_total[OF hr ir] by blast
  show ?thesis
  proof (cases "group_students_loop ss lk Map.empty []")
    case (Inl e)
    then obtain m where "e = TypeError m" using group_students_loop_Inl[OF hs] by blast
    with Inl lk assms show ?thesis
      by (simp add: combine_data_def build_room_lookup_def group_students_by_room_def)
  next
    case (Inr p)
    obtain br un where p: "p = (br, un)" by (cases p)
    obtain res where "build_combined_rooms_loop rs br = Inr res"
      using build_combined_rooms_loop_total[OF hr ir] by blast
    with Inr p lk assms show ?thesis
      by (simp add: combine_data_def build_room_lookup_def group_students_by_room_def
          build_combined_rooms_def)
  qed
qed

lemma validate_input_data_records:
  assumes hs: "list_all has_keys ss" and hr: "list_all has_keys rs"
  shows "validate_input_data (PList ss) (PList rs) =
     (case check_duplicates (PList rs) ''Duplicate room IDs found'' of
        Inl e \<Rightarrow> Inl (reraise_validation e)
      | Inr _ \<Rightarrow>
          (case check_duplicates (PList ss) ''Duplicate student IDs found'' of
             Inl e \<Rightarrow> Inl (reraise_validation e)
           | Inr _ \<Rightarrow> Inr True))"
proof -
  have "validate_students_loop 0 ss = Inr ()" "validate_rooms_loop 0 rs = Inr ()"
    using hs hr by (simp_all add: validate_students_loop_ok validate_rooms_loop_ok)
  then show ?thesis
    by (simp add: validate_input_data_def validate_input_body_def validate_business_rules_def
        split: sum.splits)
qed

lemma combine_data_validation_failed:
  "validate_input_data (PList ss) (PList rs) = Inl e \<Longrightarrow> combine_data (PList ss) (PList rs) = Inl e"
  by (simp add: combine_data_def)

lemma reraise_validation_is_ValidationError: "\<exists>msg. reraise_validation e = ValidationError msg"
  by (cases e) auto

lemma validate_input_data_Inl:
  "validate_input_data S R = Inl e \<Longrightarrow> \<exists>msg. e = ValidationError msg"
  using reraise_validation_is_ValidationError
  by (auto simp: validate_input_data_def split: sum.splits)

text \<open>
  C4, as amended. On inputs that pass the structural key checks, \<open>combine_data\<close> raises
  \<^verbatim>\<open>ValidationError\<close> if and only if, among the non-null room ids or among the non-null
  student ids, there are duplicates or there is an id that cannot be hashed (a list or a
  dict). When the room ids are hashable and contain duplicates the message is
  \<open>Duplicate room IDs found\<close>; when the room ids are hashable and distinct and the student
  ids are hashable and contain duplicates it is \<open>Duplicate student IDs found\<close>. The result
  is the exception alone: no output is returned with it.
\<close>

theorem combine_data_validation_error:
  assumes hs: "validate_students_data (PList students) = Inr ()"
    and hr: "validate_rooms_data (PList rooms) = Inr ()"
  shows "((\<exists>msg. combine_data (PList students) (PList rooms) = Inl (ValidationError msg)) \<longleftrightarrow>
          (has_duplicates (ids_of rooms) \<or> \<not> list_all hashable (ids_of rooms) \<or>
           has_duplicates (ids_of students) \<or> \<not> list_all hashable (ids_of students))) \<and>
         (list_all hashable (ids_of rooms) \<and> has_duplicates (ids_of rooms) \<longrightarrow>
            combine_data (PList students) (PList rooms) =
              Inl (ValidationError ''Duplicate room IDs found'')) \<and>
         (list_all hashable (ids_of rooms) \<and> \<not> has_duplicates (ids_of rooms) \<and>
          list_all hashable (ids_of students) \<and> has_duplicates (ids_of students) \<longrightarrow>
            combine_data (PList students) (PList rooms) =
              Inl (ValidationError ''Duplicate student IDs found''))"
proof -
  have ks: "list_all has_keys students" and kr: "list_all has_keys rooms"
    using hs hr by (simp_all add: validate_students_loop_ok validate_rooms_loop_ok)
  note v = validate_input_data_records[OF ks kr]
  note cr = check_duplicates_cases[OF kr, of "''Duplicate room IDs found''"]
  note cs = check_duplicates_cases[OF ks, of "''Duplicate student IDs found''"]
  let ?bad = "has_duplicates (ids_of rooms) \<or> \<not> list_all hashable (ids_of rooms) \<or>
           has_duplicates (ids_of students) \<or> \<not> list_all hashable (ids_of students)"
  have room_dup: "combine_data (PList students) (PList rooms) =
      Inl (ValidationError ''Duplicate room IDs found'')"
    if "list_all hashable (ids_of rooms)" "has_duplicates (ids_of rooms)"
    using cr(1)[OF that] by (intro combine_data_validation_failed) (simp add: v)
  have student_dup: "combine_data (PList students) (PList rooms) =
      Inl (ValidationError ''Duplicate student IDs found'')"
    if "list_all hashable (ids_of rooms)" "\<not> has_duplicates (ids_of rooms)"
       "list_all hashable (ids_of students)" "has_duplicates (ids_of students)"
    using cr(2)[OF that(1,2)] cs(1)[OF that(3,4)]
    by (intro combine_data_validation_failed) (simp add: v)
  have fails: "\<exists>msg. combine_data (PList students) (PList rooms) = Inl (ValidationError msg)"
    if "?bad"
  proof -
    have "\<exists>e. validate_input_data (PList students) (PList rooms) = Inl e"
    proof (cases "list_all hashable (ids_of rooms)")
      case False
      then show ?thesis using cr(3) by (auto simp: v)
    next
      case hrooms: True
      show ?thesis
      proof (cases "has_duplicates (ids_of rooms)")
        case True
        then show ?thesis using cr(1)[OF hrooms] by (simp add: v)
      next
        case nd: False
        show ?thesis
        proof (cases "list_all hashable (ids_of students)")
          case False
          then show ?thesis using cr(2)[OF hrooms nd] cs(3) by (auto simp: v)
        next
          case True
          with that hrooms nd have "has_duplicates (ids_of students)" by simp
          then show ?thesis using cr(2)[OF hrooms nd] cs(1)[OF True] by (simp add: v)
        qed
      qed
    qed
    then obtain e where e: "validate_input_data (PList students) (PList rooms) = Inl e" ..
    then obtain msg where "e = ValidationError msg" using validate_input_data_Inl by blast
    with e show ?thesis using combine_data_validation_failed by blast
  qed
  have ok: "combine_data (PList students) (PList rooms) \<noteq> Inl (ValidationError msg)"
    if "\<not> ?bad" for msg
  proof -
    have "validate_input_data (PList students) (PList rooms) = Inr True"
      using that cr(2) cs(2) by (simp add: v)
    then show ?thesis by (rule combine_data_after_validation)
  qed
  show ?thesis
    using room_dup student_dup fails ok by blast
qed

text \<open>Two rooms with id 1 and the students of the scenario: the room ids are reported.\<close>

theorem combine_data_validation_error_witness:
  "validate_students_data (PList scenario_students) = Inr () \<and>
   validate_rooms_data (PList duplicate_rooms) = Inr () \<and>
   list_all hashable (ids_of duplicate_rooms) \<and> has_duplicates (ids_of duplicate_rooms) \<and>
   combine_data (PList scenario_students) (PList duplicate_rooms) =
     Inl (ValidationError ''Duplicate room IDs found'')"
proof -
  have a: "validate_students_data (PList scenario_students) = Inr ()" by code_simp
  have b: "validate_rooms_data (PList duplicate_rooms) = Inr ()" by code_simp
  have c: "list_all hashable (ids_of duplicate_rooms)" by code_simp
  have d: "has_duplicates (ids_of duplicate_rooms)" by code_simp
  from combine_data_validation_error[OF a b] a b c d show ?thesis by simp
qed

text \<open>
  C4 as stated fails in the direction "only if": one student whose id is an empty list and
  no rooms pass the structural key checks and have no duplicate id, yet \<open>combine_data\<close>
  raises \<^verbatim>\<open>ValidationError\<close>, and its message names no collection.
\<close>

theorem combine_data_validation_error_counterexample:
  "validate_students_data (PList [PDict [(''id'', PList []), (''name'', PStr ''Eve'')]]) = Inr () \<and>
   validate_rooms_data (PList []) = Inr () \<and>
   \<not> has_duplicates (ids_of [PDict [(''id'', PList []), (''name'', PStr ''Eve'')]]) \<and>
   \<not> has_duplicates (ids_of []) \<and>
   combine_data (PList [PDict [(''id'', PList []), (''name'', PStr ''Eve'')]]) (PList []) =
     Inl (ValidationError (''Input validation failed: unhashable type: '' @ squote ''list''))"
  by code_simp

subsection \<open>C5: propagation of a validation error\<close>

text \<open>
  C5, as amended. A \<^verbatim>\<open>ValidationError\<close> raised by the validation code (the body of the
  \<^verbatim>\<open>try\<close> block of \<open>validate_input_data\<close>) leaves \<open>validate_input_data\<close> and
  \<open>combine_data\<close> unchanged, with the same message. The controller's \<open>process_data\<close>
  catches it and raises a new \<^verbatim>\<open>ValidationError\<close> whose message is
  \<open>Data processing failed: \<close> followed by the original message; this re-worded error is
  the one the controller's error-reporting step receives.
\<close>

theorem validation_error_propagation:
  assumes "validate_input_body S R = Inl (ValidationError msg)"
    and "py_len S = Inr n" and "py_len R = Inr m"
  shows "validate_input_data S R = Inl (ValidationError msg) \<and>
         combine_data S R = Inl (ValidationError msg) \<and>
         process_data S R = Inl (ValidationError (''Data processing failed: '' @ msg))"
  using assms by (simp add: validate_input_data_def combine_data_def process_data_def)

text \<open>Two rooms with id 1: the message of the duplicate check, and what the controller makes of it.\<close>

theorem validation_error_propagation_witness:
  "validate_input_body (PList scenario_students) (PList duplicate_rooms) =
     Inl (ValidationError ''Duplicate room IDs found'') \<and>
   py_len (PList scenario_students) = Inr 3 \<and> py_len (PList duplicate_rooms) = Inr 2 \<and>
   validate_input_data (PList scenario_students) (PList duplicate_rooms) =
     Inl (ValidationError ''Duplicate room IDs found'') \<and>
   combine_data (PList scenario_students) (PList duplicate_rooms) =
     Inl (ValidationError ''Duplicate room IDs found'') \<and>
   process_data (PList scenario_students) (PList duplicate_rooms) =
     Inl (ValidationError ''Data processing failed: Duplicate room IDs found'')"
proof -
  have a: "validate_input_body (PList scenario_students) (PList duplicate_rooms) =
     Inl (ValidationError ''Duplicate room IDs found'')" by code_simp
  have b: "py_len (PList scenario_students) = Inr 3" by code_simp
  have c: "py_len (PList duplicate_rooms) = Inr 2" by code_simp
  from validation_error_propagation[OF a b c] a b c show ?thesis by simp
qed

text \<open>
  C5 as stated fails: for two students with id 7 the validation code raises
  \<open>Duplicate student IDs found\<close>, and what \<open>process_data\<close> hands to the error-reporting
  step is another error, with another message.
\<close>

theorem validation_error_propagation_counterexample:
  "validate_business_rules (PList duplicate_students) (PList []) =
     Inl (ValidationError ''Duplicate student IDs found'') \<and>
   process_data (PList duplicate_students) (PList []) =
     Inl (ValidationError ''Data processing failed: Duplicate student IDs found'') \<and>
   process_data (PList duplicate_students) (PList []) \<noteq>
     Inl (ValidationError ''Duplicate student IDs found'')"
  by code_simp

subsection \<open>C6: escaping in the XML export\<close>

text \<open>
  C6 fails on the code. For a room named \<open>R&D\<close>, \<open>escape_xml_content\<close> already puts
  \<open>R&amp;D\<close> into the text of the \<open>name\<close> element, and the library's serialiser escapes
  the ampersand of that text once more: the document holds \<open>R&amp;amp;D\<close>, which reads
  back as \<open>R&amp;D\<close> and not as the original name.
\<close>

theorem generate_xml_escapes_twice:
  "room_element ampersand_room =
     Inr (Element ''room'' []
            [Element ''id'' ''1'' [], Element ''name'' ''R&amp;D'' [], Element ''students'' [] []]) \<and>
   generate_xml (PList [ampersand_room]) =
     Inr (''<?xml version=\"1.0\" ?>'' @ newl @
          ''<rooms>'' @ newl @
          ''  <room>'' @ newl @
          ''    <id>1</id>'' @ newl @
          ''    <name>R&amp;amp;D</name>'' @ newl @
          ''    <students/>'' @ newl @
          ''  </room>'' @ newl @
          ''</rooms>'' @ newl)"
  by code_simp

subsection \<open>C7: a format that is not registered\<close>

text \<open>
  C7. Requesting an exporter for a format name whose lower-case form is not a key of the
  registry raises \<^verbatim>\<open>UnsupportedFormatError\<close> carrying the requested name, as it was given,
  and the list of the registered names; requesting \<open>yaml\<close> from the default registry raises
  it with exactly \<open>[json, xml]\<close>, and its message lists both.
\<close>

theorem create_exporter_unsupported:
  "(lower format_name \<notin> set (get_supported_formats exporters) \<longrightarrow>
      create_exporter exporters format_name =
        Inl (UnsupportedFormatError format_name (get_supported_formats exporters))) \<and>
   create_exporter default_exporters ''yaml'' = Inl (UnsupportedFormatError ''yaml'' [''json'', ''xml'']) \<and>
   str_exn (UnsupportedFormatError ''yaml'' [''json'', ''xml'']) =
     ''Unsupported format '' @ squote ''yaml'' @ ''. Supported formats: json, xml''"
proof -
  have "create_exporter exporters format_name =
        Inl (UnsupportedFormatError format_name (get_supported_formats exporters))"
    if "lower format_name \<notin> set (get_supported_formats exporters)"
  proof -
    from that have "map_of exporters (lower format_name) = None"
      by (simp add: get_supported_formats_def map_of_eq_None_iff)
    then show ?thesis by (simp add: create_exporter_def get_supported_formats_def)
  qed
  moreover have "create_exporter default_exporters ''yaml'' =
      Inl (UnsupportedFormatError ''yaml'' [''json'', ''xml''])"
    by code_simp
  moreover have "str_exn (UnsupportedFormatError ''yaml'' [''json'', ''xml'']) =
     ''Unsupported format '' @ squote ''yaml'' @ ''. Supported formats: json, xml''"
    by code_simp
  ultimately show ?thesis by blast
qed

text \<open>\<open>YAML\<close> in capitals is not registered either; the error carries the name as requested.\<close>

theorem create_exporter_unsupported_witness:
  "lower ''YAML'' \<notin> set (get_supported_formats default_exporters) \<and>
   create_exporter default_exporters ''YAML'' =
     Inl (UnsupportedFormatError ''YAML'' [''json'', ''xml''])"
proof -
  have a: "lower ''YAML'' \<notin> set (get_supported_formats default_exporters)" by code_simp
  have b: "get_supported_formats default_exporters = [''json'', ''xml'']" by code_simp
  from create_exporter_unsupported[of "''YAML''" default_exporters] a b show ?thesis by simp
qed

subsection \<open>C8: validation before the export\<close>

text \<open>The validation loop stops at the first record that is not a dict with the three keys.\<close>

lemma check_required_fields_result:
  "check_required_fields i d required_fields =
     (if record_ok (PDict d) then Inr ()
      else Inl (DataExportError (bad_record_message i (PDict d)) None))"
  by (simp add: required_fields_def first_missing_def)

lemma validate_records_loop_step:
  "validate_records_loop i (r # records) =
     (if record_ok r then validate_records_loop (Suc i) records
      else Inl (DataExportError (bad_record_message i r) None))"
proof (cases r)
  case (PDict d)
  then show ?thesis
    by (simp add: check_required_fields_result del: record_ok.simps bad_record_message.simps)
qed simp_all

lemma validate_records_loop_result:
  "validate_records_loop i records =
     (if list_all record_ok records then Inr ()
      else Inl (DataExportError
             (bad_record_message (i + first_bad records) (records ! first_bad records)) None))"
proof (induction records arbitrary: i)
  case Nil
  then show ?case by simp
next
  case (Cons r records)
  show ?case
  proof (cases "record_ok r")
    case True
    then show ?thesis
      using Cons.IH[of "Suc i"] by (simp add: validate_records_loop_step first_bad_def)
  next
    case False
    then show ?thesis
      by (simp add: validate_records_loop_step first_bad_def)
  qed
qed

text \<open>
  C8, as amended. For every export call of either exporter on a list of records and for every
  behaviour of the file system: if some record is not a dict or lacks a mandatory key, the
  export raises \<^verbatim>\<open>DataExportError\<close> carrying the output path, with the message
  \<open>Failed to export JSON data: \<close> (or \<open>XML\<close>) followed by the validation message, which
  names the index of the first such record and, for a dict, the first missing field; the file
  system is left as it was, neither directory nor file is touched. If all records have the
  mandatory keys, validation returns \<open>True\<close>; the JSON exporter then goes on to create the
  parent directories and write the serialised data; the XML exporter first generates the
  document, raises \<^verbatim>\<open>DataExportError\<close> without touching the file system when the generation
  fails, and goes on to the write otherwise.
\<close>

theorem export_validation:
  "(\<not> list_all record_ok records \<longrightarrow>
      export os ex (PList records) output_path fs =
        (Inl (DataExportError
               (''Failed to export '' @ format_label ex @ '' data: '' @
                bad_record_message (first_bad records) (records ! first_bad records))
               (Some output_path)), fs)) \<and>
   (list_all record_ok records \<longrightarrow>
      validate_output_data ex (PList records) = Inr True \<and>
      export os JSONExporter (PList records) output_path fs =
        write_output os ''JSON'' (json_dumps 0 (PList records)) output_path fs \<and>
      export os XMLExporter (PList records) output_path fs =
        (case generate_xml (PList records) of
           Inl e \<Rightarrow>
             (Inl (DataExportError (''Failed to export XML data: '' @ str_exn e)
                     (Some output_path)), fs)
         | Inr xml_content \<Rightarrow> write_output os ''XML'' xml_content output_path fs))"
  by (cases ex) (simp_all add: validate_records_loop_result)

text \<open>
  A record without \<open>students\<close> at index 1 stops the XML export with an empty file system left
  empty; the output of the scenario is written by the JSON export.
\<close>

theorem export_validation_witness:
  "\<not> list_all record_ok incomplete_records \<and>
   export memory_env XMLExporter (PList incomplete_records) ''out/rooms.xml'' [] =
     (Inl (DataExportError
            ''Failed to export XML data: Record at index 1 missing required field: students''
            (Some ''out/rooms.xml'')), []) \<and>
   list_all record_ok scenario_output \<and>
   validate_output_data JSONExporter (PList scenario_output) = Inr True \<and>
   export memory_env JSONExporter (PList scenario_output) ''out/rooms.json'' [] =
     (Inr (), [(''out/rooms.json'', json_dumps 0 (PList scenario_output))])"
proof -
  have a: "\<not> list_all record_ok incomplete_records" by code_simp
  have b: "list_all record_ok scenario_output" by code_simp
  have c: "''Failed to export '' @ format_label XMLExporter @ '' data: '' @
       bad_record_message (first_bad incomplete_records)
         (incomplete_records ! first_bad incomplete_records) =
     ''Failed to export XML data: Record at index 1 missing required field: students''"
    by code_simp
  have d: "write_output memory_env ''JSON'' content ''out/rooms.json'' [] =
     (Inr (), [(''out/rooms.json'', content)])" for content
    by (simp add: write_output_def memory_env_def)
  from export_validation[of incomplete_records memory_env XMLExporter "''out/rooms.xml''" "[]"]
    export_validation[of scenario_output memory_env JSONExporter "''out/rooms.json''" "[]"]
    a b c d
  show ?thesis by simp
qed

text \<open>
  C8 as stated fails in its last part for the XML exporter: the record has the three
  mandatory keys and validation passes, but its students are the number 5, the generation of
  the document raises, and nothing is written.
\<close>

theorem export_validation_counterexample:
  "list_all record_ok odd_records \<and>
   validate_output_data XMLExporter (PList odd_records) = Inr True \<and>
   export memory_env XMLExporter (PList odd_records) ''out/rooms.xml'' [] =
     (Inl (DataExportError
            (''Failed to export XML data: '' @ squote ''int'' @ '' object is not iterable'')
            (Some ''out/rooms.xml'')), [])"
  by code_simp

subsection \<open>C9: the buckets partition the students\<close>

text \<open>
  With distinct room ids a student refers to at most one room of the list, so its entry is
  counted once over all buckets.
\<close>

lemma refers_to_id: "refers_to s r \<Longrightarrow> field r ''id'' \<noteq> PNone \<and> hash_key (field r ''id'') = hash_key (field s ''room'')"
  by (auto simp: refers_to_def same_key_iff hash_key_None)

lemma refers_to_once:
  "distinct (map hash_key (ids_of rs)) \<Longrightarrow>
   length (filter (refers_to s) rs) = (if list_ex (refers_to s) rs then 1 else 0)"
proof (induction rs)
  case Nil
  then show ?case by simp
next
  case (Cons r rs)
  show ?case
  proof (cases "refers_to s r")
    case True
    then have id: "field r ''id'' \<noteq> PNone" and k: "hash_key (field r ''id'') = hash_key (field s ''room'')"
      using refers_to_id by blast+
    have "\<not> refers_to s r'" if "r' \<in> set rs" for r'
    proof
      assume "refers_to s r'"
      then have "field r' ''id'' \<noteq> PNone" "hash_key (field r' ''id'') = hash_key (field s ''room'')"
        using refers_to_id by blast+
      with that have "field r' ''id'' \<in> set (ids_of rs)"
        by (auto simp: ids_of_def)
      then have "hash_key (field r' ''id'') \<in> set (map hash_key (ids_of rs))"
        by simp
      then have "hash_key (field r ''id'') \<in> set (map hash_key (ids_of rs))"
        using k \<open>hash_key (field r' ''id'') = hash_key (field s ''room'')\<close> by simp
      with Cons.prems id show False by (simp add: ids_of_def)
    qed
    then have "filter (refers_to s) rs = []" by (simp add: filter_empty_conv)
    with True show ?thesis by simp
  next
    case False
    have "distinct (map hash_key (ids_of rs))"
      using Cons.prems by (auto simp: ids_of_def split: if_splits)
    with Cons.IH False show ?thesis by simp
  qed
qed

lemma mset_buckets_Cons:
  "mset (concat (map (\<lambda>r. map f (filter (\<lambda>s. P s r) (s # ss))) rs)) =
   replicate_mset (length (filter (P s) rs)) (f s) +
   mset (concat (map (\<lambda>r. map f (filter (\<lambda>s. P s r) ss)) rs))"
  by (induction rs) auto

lemma mset_partition:
  assumes "distinct (map hash_key (ids_of rs))"
  shows "mset (concat (map (\<lambda>r. map entry_of (filter (\<lambda>s. refers_to s r) ss)) rs)) +
         mset (map entry_of (filter (unassigned rs) ss)) = mset (map entry_of ss)"
proof (induction ss)
  case Nil
  then show ?case by simp
next
  case (Cons s ss)
  have a: "mset (concat (map (\<lambda>r. map entry_of (filter (\<lambda>s. refers_to s r) (s # ss))) rs)) =
      replicate_mset (if list_ex (refers_to s) rs then 1 else 0) (entry_of s) +
      mset (concat (map (\<lambda>r. map entry_of (filter (\<lambda>s. refers_to s r) ss)) rs))"
    using mset_buckets_Cons[of entry_of refers_to s ss rs] refers_to_once[OF assms, of s]
    by simp
  show ?case
    unfolding a using Cons.IH
    by (cases "list_ex (refers_to s) rs") (simp_all add: unassigned_def)
qed

lemma students_of_expected:
  "concat (map students_of (expected_output ss rs)) =
   concat (map (\<lambda>r. map entry_of (filter (\<lambda>s. refers_to s r) ss)) rs) @
   map entry_of (filter (unassigned rs) ss)"
proof -
  have "students_of (room_entry ss r) = map entry_of (filter (\<lambda>s. refers_to s r) ss)" for r
    by (simp add: room_entry_def dict_get_def)
  then have "map students_of (map (room_entry ss) rs) =
        map (\<lambda>r. map entry_of (filter (\<lambda>s. refers_to s r) ss)) rs"
    by simp
  then show ?thesis
    by (simp add: expected_output_def unassigned_entry_def dict_get_def del: map_map)
qed

lemma combine_data_distinct_rooms:
  assumes "combine_data (PList ss) (PList rs) = Inr out"
  shows "distinct (map hash_key (ids_of rs))"
proof -
  from assms obtain b where v: "validate_input_data (PList ss) (PList rs) = Inr b"
    by (auto simp: combine_data_def split: sum.splits)
  then have hr: "list_all has_keys rs"
    and vb: "validate_business_rules (PList ss) (PList rs) = Inr ()"
    by (auto simp: validate_input_data_Inr validate_rooms_loop_ok)
  have c: "check_duplicates (PList rs) ''Duplicate room IDs found'' = Inr ()"
    using vb by (auto simp: validate_business_rules_def split: sum.splits)
  have h: "list_all hashable (ids_of rs)"
    using c check_duplicates_cases(3)[OF hr, of "''Duplicate room IDs found''"] by auto
  have "\<not> has_duplicates (ids_of rs)"
    using c check_duplicates_cases(1)[OF hr h, of "''Duplicate room IDs found''"] by auto
  then show ?thesis using has_duplicates_distinct[OF h] by simp
qed

text \<open>
  C9. For every input on which \<open>combine_data\<close> succeeds, the students input is a list, and
  the entries of all students lists of the output, taken together, are exactly the
  \<open>{id, name}\<close> entries of the input students, each with its multiplicity: every input
  student contributes one entry to one bucket. The sum of the lengths of the students lists
  equals the length of the input students list, and every entry has the keys \<open>id\<close> and
  \<open>name\<close> only (the key \<open>room\<close> is dropped).
\<close>

theorem combine_data_partition:
  assumes "combine_data S R = Inr out"
  shows "\<exists>students. S = PList students \<and>
     mset (concat (map students_of out)) = mset (map entry_of students) \<and>
     sum_list (map (\<lambda>r. length (students_of r)) out) = length students \<and>
     map keys_of (concat (map students_of out)) = replicate (length students) [''id'', ''name'']"
proof -
  from combine_data_lists[OF assms] obtain ss rs where S: "S = PList ss" and R: "R = PList rs"
    by blast
  have out: "out = expected_output ss rs"
    using assms S R combine_data_expected by simp
  have d: "distinct (map hash_key (ids_of rs))"
    using assms S R combine_data_distinct_rooms by simp
  have m: "mset (concat (map students_of out)) = mset (map entry_of ss)"
    using mset_partition[OF d, of ss] by (simp add: out students_of_expected)
  have "sum_list (map (\<lambda>r. length (students_of r)) out) = length (concat (map students_of out))"
    by (simp add: length_concat comp_def)
  also have "\<dots> = length ss"
    using m by (metis length_map size_mset)
  finally have l: "sum_list (map (\<lambda>r. length (students_of r)) out) = length ss" .
  have len: "length (concat (map students_of out)) = length ss"
    using m by (metis length_map size_mset)
  have "set (concat (map students_of out)) = entry_of ` set ss"
    using m by (metis set_mset_mset set_map)
  then have "keys_of e = [''id'', ''name'']" if "e \<in> set (concat (map students_of out))" for e
    using that by (auto simp: entry_of_def)
  then have k: "map keys_of (concat (map students_of out)) = replicate (length ss) [''id'', ''name'']"
    using len by (intro replicate_eqI) auto
  show ?thesis
    using S m l k by simp
qed

text \<open>The scenario of the specification: three students in, three entries out.\<close>

theorem combine_data_partition_witness:
  "combine_data (PList scenario_students) (PList scenario_rooms) = Inr scenario_output \<and>
   mset (concat (map students_of scenario_output)) = mset (map entry_of scenario_students) \<and>
   sum_list (map (\<lambda>r. length (students_of r)) scenario_output) = length scenario_students \<and>
   map keys_of (concat (map students_of scenario_output)) =
     replicate (length scenario_students) [''id'', ''name'']"
proof -
  have d: "combine_data (PList scenario_students) (PList scenario_rooms) = Inr scenario_output"
    by code_simp
  from combine_data_partition[OF d] d show ?thesis by auto
qed

subsection \<open>C10: a room whose id is null\<close>

lemma not_refers_to_null: "field r ''id'' = PNone \<Longrightarrow> \<not> refers_to s r"
  by (auto simp: refers_to_def same_key_iff hash_key_None)

text \<open>
  C10. A room record whose key \<open>id\<close> is present with the value null (and that has a name)
  passes the structural validation of rooms, contributes nothing to the ids that the
  duplicate checks compare, and is skipped when the room lookup is built. In every output of
  \<open>combine_data\<close> it still appears, at its position, as a combined room with id null and an
  empty students list, since no student can refer to it. So an output can hold null-id
  records that are not the synthetic record, and several at once: two such rooms and one
  student without room give three records with id null.
\<close>

theorem null_id_room:
  assumes "dict_contains d ''id''" and "dict_get d ''id'' PNone = PNone"
    and "dict_contains d ''name''"
  shows "validate_rooms_loop i (PDict d # rest) = validate_rooms_loop (Suc i) rest \<and>
         non_null_ids (PDict d # rest) = non_null_ids rest \<and>
         build_room_lookup_loop (PDict d # rest) lk = build_room_lookup_loop rest lk \<and>
         (combine_data (PList students) (PList rooms) = Inr out \<and> j < length rooms \<and>
          rooms ! j = PDict d \<longrightarrow>
            out ! j = PDict [(''id'', PNone), (''name'', dict_get d ''name'' PNone),
                             (''students'', PList [])]) \<and>
         combine_data (PList [PDict [(''id'', PInt 3), (''name'', PStr ''Carol'')]]) (PList null_rooms) =
           Inr null_rooms_output"
proof -
  have a: "validate_rooms_loop i (PDict d # rest) = validate_rooms_loop (Suc i) rest"
    using assms by simp
  have b: "non_null_ids (PDict d # rest) = non_null_ids rest"
    using assms(2) by (cases "non_null_ids rest") simp_all
  have c: "build_room_lookup_loop (PDict d # rest) lk = build_room_lookup_loop rest lk"
    using assms(2) by simp
  have e: "out ! j = PDict [(''id'', PNone), (''name'', dict_get d ''name'' PNone),
                             (''students'', PList [])]"
    if "combine_data (PList students) (PList rooms) = Inr out" "j < length rooms"
       "rooms ! j = PDict d"
  proof -
    have "out = expected_output students rooms"
      using that(1) by (rule combine_data_expected)
    then have "out ! j = room_entry students (PDict d)"
      using that(2,3) by (simp add: expected_output_def nth_append)
    moreover have "filter (\<lambda>s. refers_to s (PDict d)) students = []"
      using assms(2) not_refers_to_null[of "PDict d"] by (simp add: filter_empty_conv)
    ultimately show ?thesis
      using assms(2) by (simp add: room_entry_def)
  qed
  have f: "combine_data (PList [PDict [(''id'', PInt 3), (''name'', PStr ''Carol'')]]) (PList null_rooms) =
           Inr null_rooms_output"
    by code_simp
  from a b c e f show ?thesis by blast
qed

text \<open>The room \<open>Annex\<close> with a null id, first of two such rooms.\<close>

theorem null_id_room_witness:
  "dict_contains annex ''id'' \<and> dict_get annex ''id'' PNone = PNone \<and> dict_contains annex ''name'' \<and>
   validate_rooms_loop 0 (PDict annex # tl null_rooms) = validate_rooms_loop 1 (tl null_rooms) \<and>
   validate_rooms_data (PList null_rooms) = Inr () \<and>
   build_room_lookup_loop (PDict annex # tl null_rooms) Map.empty =
     build_room_lookup_loop (tl null_rooms) Map.empty \<and>
   null_rooms_output ! 0 =
     PDict [(''id'', PNone), (''name'', PStr ''Annex''), (''students'', PList [])]"
proof -
  have a: "dict_contains annex ''id''" by code_simp
  have b: "dict_get annex ''id'' PNone = PNone" by code_simp
  have c: "dict_contains annex ''name''" by code_simp
  have d: "validate_rooms_data (PList null_rooms) = Inr ()" by code_simp
  have e: "null_rooms_output ! 0 =
     PDict [(''id'', PNone), (''name'', PStr ''Annex''), (''students'', PList [])]" by code_simp
  from null_id_room[OF a b c, of 0 "tl null_rooms" Map.empty] a b c d e
  show ?thesis by simp
qed

end
